theory Spec2Isabelle
  imports Complex_Main "HOL-Library.Log_Nat"
begin

section \<open>Data model\<close>

text \<open>
  A JavaScript \<open>Date\<close> is modelled by its time value (\<open>getTime()\<close>), an integer number of
  milliseconds; comparing two dates with \<open><\<close> or \<open>></\<close> compares these numbers, and
  \<open>new Date(d)\<close> of a date copies the number. A \<open>Date\<close> object is always truthy.
  The calendar helpers of date-fns are modelled in UTC, where every day has
  \<open>86400000\<close> milliseconds. A string is truthy when it is not empty.
\<close>

type_synonym Date = int

definition truthy :: "string \<Rightarrow> bool" where
  "truthy s = (s \<noteq> [])"

definition msPerDay :: int where
  "msPerDay = 86400000"

definition addDays :: "Date \<Rightarrow> int \<Rightarrow> Date" where
  "addDays d n = d + n * msPerDay"

definition dayOf :: "Date \<Rightarrow> int" where
  "dayOf d = d div msPerDay"

definition isSameDay :: "Date \<Rightarrow> Date \<Rightarrow> bool" where
  "isSameDay a b = (dayOf a = dayOf b)"

definition isBefore :: "Date \<Rightarrow> Date \<Rightarrow> bool" where
  "isBefore a b = (a < b)"

record TimelineEvent =
  ev_id :: string
  resourceId :: string
  title :: string
  ev_start :: Date
  ev_end :: Date
  style_width :: "int option"

record TimelineResource =
  res_id :: string
  res_title :: string

subsection \<open>JavaScript \<open>Map\<close> with string keys, in insertion order\<close>

fun map_set :: "string \<Rightarrow> 'v \<Rightarrow> (string \<times> 'v) list \<Rightarrow> (string \<times> 'v) list" where
  "map_set k v [] = [(k, v)]"
| "map_set k v ((k', v') # m) = (if k = k' then (k, v) # m else (k', v') # map_set k v m)"

definition map_get :: "(string \<times> 'v) list \<Rightarrow> string \<Rightarrow> 'v option" where
  "map_get m k = map_of m k"

definition map_values :: "(string \<times> 'v) list \<Rightarrow> 'v list" where
  "map_values m = map snd m"

subsection \<open>JavaScript numbers and the time value of a new \<open>Date\<close>\<close>

text \<open>
  A JavaScript number is an IEEE 754 double. A finite double is modelled by the real number
  it denotes, and an arithmetic operation on doubles by the exact operation followed by
  \<open>fl\<close>, the rounding to the nearest double with ties to the even significand: 53 bits of
  significand, binary exponents from \<open>-1022\<close>, gradual underflow below. Overflow to an
  infinity is left out: the numbers below are pixel coordinates and time values, far from
  \<open>2^1024\<close>. \<open>Math.ceil\<close> and \<open>Math.max\<close> are exact.
\<close>

text \<open>The binary exponent of a positive number \<open>x\<close>: \<open>2^e \<le> x < 2^(e + 1)\<close>.\<close>

definition binExp :: "real \<Rightarrow> int" where
  "binExp x = (if 1 \<le> x then bitlen \<lfloor>x\<rfloor> - 1 else - bitlen (\<lceil>1 / x\<rceil> - 1))"

definition roundHalfEven :: "real \<Rightarrow> int" where
  "roundHalfEven r =
     (let f = \<lfloor>r\<rfloor>; d = r - of_int f
      in if d < 1 / 2 then f else if 1 / 2 < d then f + 1 else if even f then f else f + 1)"

definition fl :: "real \<Rightarrow> real" where
  "fl x =
     (if x = 0 then 0
      else (let u = 2 powi (max (binExp \<bar>x\<bar>) (- 1022) - 52)
            in of_int (roundHalfEven (x / u)) * u))"

text \<open>
  \<open>new Date(t)\<close> of a number \<open>t\<close> keeps the integral part of \<open>t\<close> as its time value when
  \<open>t\<close> is at most \<open>8.64e15\<close> milliseconds in magnitude, and is an Invalid Date otherwise.
  A date that may be invalid is a \<open>Date option\<close>, \<open>None\<close> the Invalid Date.
\<close>

definition maxTimeValue :: int where
  "maxTimeValue = 8640000000000000"

definition timeClip :: "real \<Rightarrow> Date option" where
  "timeClip t =
     (if \<bar>t\<bar> > of_int maxTimeValue then None
      else Some (if 0 \<le> t then \<lfloor>t\<rfloor> else \<lceil>t\<rceil>))"

section \<open>Resource/event index (useTimelineEvents)\<close>

text \<open>\<open>eventMap\<close> (the memoised value): events with a truthy id, keyed by id; a later event
  replaces an earlier one with the same id.\<close>

definition eventMap_memo :: "TimelineEvent list \<Rightarrow> (string \<times> TimelineEvent) list" where
  "eventMap_memo events =
     foldl (\<lambda>m event. if truthy (ev_id event) then map_set (ev_id event) event m else m) [] events"

text \<open>\<open>resourceEventIndex\<close>: events with a truthy resource id, grouped by resource id in
  input order.\<close>

definition index_push ::
  "(string \<times> TimelineEvent list) list \<Rightarrow> TimelineEvent \<Rightarrow> (string \<times> TimelineEvent list) list" where
  "index_push index event =
     (if truthy (resourceId event) then
        (let resourceEvents = (case map_get index (resourceId event) of Some es \<Rightarrow> es | None \<Rightarrow> [])
         in map_set (resourceId event) (resourceEvents @ [event]) index)
      else index)"

definition resourceEventIndex :: "TimelineEvent list \<Rightarrow> (string \<times> TimelineEvent list) list" where
  "resourceEventIndex events = foldl index_push [] events"

definition getEventsForResource :: "TimelineEvent list \<Rightarrow> string \<Rightarrow> TimelineEvent list" where
  "getEventsForResource events rid =
     (case map_get (resourceEventIndex events) rid of Some es \<Rightarrow> es | None \<Rightarrow> [])"

section \<open>Conflict detector\<close>

text \<open>
  Both conflict checks take the optional parameter \<open>excludeEventId\<close> (\<open>None\<close> when it is
  not passed) and test it for truthiness before they compare ids:
  \<open>!excludeEventId || e.id !== excludeEventId\<close> in \<open>checkTimeSlotConflict\<close>,
  \<open>excludeEventId ? event.id !== excludeEventId : true\<close> in \<open>checkForConflicts\<close>.
\<close>

definition excludeFilter :: "string option \<Rightarrow> TimelineEvent \<Rightarrow> bool" where
  "excludeFilter excludeEventId e =
     (case excludeEventId of
        None \<Rightarrow> True
      | Some x \<Rightarrow> \<not> truthy x \<or> ev_id e \<noteq> x)"

text \<open>\<open>checkTimeSlotConflict\<close> of useTimelineEvents. Its guards on the two dates passed and
  on the dates of an event never fire, a \<open>Date\<close> being an object.\<close>

definition checkTimeSlotConflict ::
  "TimelineEvent list \<Rightarrow> string \<Rightarrow> Date \<Rightarrow> Date \<Rightarrow> string option \<Rightarrow> bool" where
  "checkTimeSlotConflict events rid startDate endDate excludeEventId =
     (if \<not> truthy rid then False
      else
        (let existingEvents = filter (excludeFilter excludeEventId) (getEventsForResource events rid)
         in list_ex (\<lambda>e. startDate < ev_end e \<and> endDate > ev_start e) existingEvents))"

text \<open>\<open>TimelineDragManager.checkForConflicts\<close>, over the manager's \<open>eventMap\<close> field.\<close>

definition checkForConflicts ::
  "(string \<times> TimelineEvent) list \<Rightarrow> string \<Rightarrow> Date \<Rightarrow> Date \<Rightarrow> string option \<Rightarrow> bool" where
  "checkForConflicts evMap rid startDate endDate excludeEventId =
     (let resourceEvents =
            filter (\<lambda>event. resourceId event = rid \<and> excludeFilter excludeEventId event)
              (map_values evMap)
      in list_ex (\<lambda>event. startDate < ev_end event \<and> endDate > ev_start event) resourceEvents)"

section \<open>Geometry calculator (useTimelineEvents.calculateEventPosition)\<close>

text \<open>\<open>Array.prototype.findIndex\<close>: the index of the first element that satisfies the
  predicate, \<open>-1\<close> when there is none.\<close>

fun findIndex :: "('a \<Rightarrow> bool) \<Rightarrow> 'a list \<Rightarrow> int" where
  "findIndex P [] = -1"
| "findIndex P (x # xs) =
     (if P x then 0 else (let i = findIndex P xs in if i = -1 then -1 else i + 1))"

datatype error = RangeError

text \<open>\<open>isWithinInterval\<close> of date-fns 2.x (the version of package.json) throws
  \<open>RangeError\<close> when the interval's start is after its end.\<close>

definition isWithinInterval :: "Date \<Rightarrow> Date \<Rightarrow> Date \<Rightarrow> error + bool" where
  "isWithinInterval date istart iend =
     (if \<not> (istart \<le> iend) then Inl RangeError
      else Inr (date \<ge> istart \<and> date \<le> iend))"

text \<open>\<open>Array.prototype.some\<close> with a callback that may throw: the first throw leaves the
  loop.\<close>

fun some_throwing :: "('a \<Rightarrow> error + bool) \<Rightarrow> 'a list \<Rightarrow> error + bool" where
  "some_throwing f [] = Inr False"
| "some_throwing f (x # xs) =
     (case f x of Inl err \<Rightarrow> Inl err
      | Inr b \<Rightarrow> if b then Inr True else some_throwing f xs)"

record EventPosition =
  isVisible :: bool
  isStart :: bool
  isEnd :: bool
  pos_startIndex :: int
  pos_endIndex :: int
  width :: int

definition notVisible :: EventPosition where
  "notVisible = \<lparr>isVisible = False, isStart = False, isEnd = False,
                  pos_startIndex = -1, pos_endIndex = -1, width = 0\<rparr>"

text \<open>The fields \<open>start\<close> and \<open>end\<close> of an event have type \<open>Date\<close>, so the guard
  \<open>!event.start || !event.end\<close> at the head of the function never fires.\<close>

definition calculateEventPosition :: "TimelineEvent \<Rightarrow> Date list \<Rightarrow> error + EventPosition" where
  "calculateEventPosition event cols =
     (let eventStart = ev_start event;
          eventEnd = ev_end event;
          startIndex = findIndex (\<lambda>date. isSameDay date eventStart) cols;
          endIndex = findIndex (\<lambda>date. isSameDay date (addDays eventEnd (-1))) cols;
          spans = (if startIndex \<noteq> -1 \<or> endIndex \<noteq> -1 then Inr True
                   else some_throwing
                          (\<lambda>date. isWithinInterval date eventStart (addDays eventEnd (-1))) cols)
      in case spans of
           Inl err \<Rightarrow> Inl err
         | Inr vis \<Rightarrow>
             if \<not> vis then Inr notVisible
             else
               (let effectiveStartIndex = (if startIndex = -1 then 0 else startIndex);
                    effectiveEndIndex = (if endIndex = -1 then int (length cols) - 1 else endIndex)
                in Inr \<lparr>isVisible = vis, isStart = (startIndex \<noteq> -1), isEnd = (endIndex \<noteq> -1),
                        pos_startIndex = effectiveStartIndex, pos_endIndex = effectiveEndIndex,
                        width = effectiveEndIndex - effectiveStartIndex + 1\<rparr>))"

text \<open>The day bucket \<open>d\<close> (a day number) overlaps the half-open interval of the event.\<close>

definition coversDay :: "TimelineEvent \<Rightarrow> int \<Rightarrow> bool" where
  "coversDay event d = (dayOf (ev_start event) \<le> d \<and> d * msPerDay < ev_end event)"

section \<open>Occupied dates (useTimelineEvents.resourceEventMap)\<close>

text \<open>The key \<open>format(currentDate, "yyyy-MM-dd")\<close> names the calendar day of the date; it
  is modelled by the day number.\<close>

definition dateKey :: "Date \<Rightarrow> int" where
  "dateKey d = dayOf d"

function occupiedLoop :: "Date \<Rightarrow> Date \<Rightarrow> int set \<Rightarrow> int set" where
  "occupiedLoop currentDate eventEnd occupied =
     (if isBefore currentDate eventEnd
      then occupiedLoop (addDays currentDate 1) eventEnd (insert (dateKey currentDate) occupied)
      else occupied)"
  by pat_completeness auto
termination
  by (relation "measure (\<lambda>(currentDate, eventEnd, occupied). nat (eventEnd - currentDate))")
     (auto simp: isBefore_def addDays_def msPerDay_def)

declare occupiedLoop.simps [simp del]

record ResourceData =
  rd_events :: "TimelineEvent list"
  occupiedDates :: "int set"

definition occupiedDatesOf :: "TimelineEvent list \<Rightarrow> int set" where
  "occupiedDatesOf resourceEvents =
     foldl (\<lambda>occupied event. occupiedLoop (ev_start event) (ev_end event) occupied) {} resourceEvents"

definition resourceEventMap ::
  "TimelineResource list \<Rightarrow> TimelineEvent list \<Rightarrow> (string \<times> ResourceData) list" where
  "resourceEventMap resources events =
     foldl (\<lambda>m resource.
              if \<not> truthy (res_id resource) then m
              else
                (let resourceEvents = getEventsForResource events (res_id resource)
                 in map_set (res_id resource)
                      \<lparr>rd_events = resourceEvents, occupiedDates = occupiedDatesOf resourceEvents\<rparr> m))
           [] resources"

text \<open>The row renderer of VirtualizedTimeline reads the entry of a resource and falls back to
  no events and no occupied date when there is none.\<close>

definition resourceDataOf :: "(string \<times> ResourceData) list \<Rightarrow> string \<Rightarrow> ResourceData" where
  "resourceDataOf m rid =
     (case map_get m rid of
        Some resourceData \<Rightarrow> resourceData
      | None \<Rightarrow> \<lparr>rd_events = [], occupiedDates = {}\<rparr>)"

section \<open>TimelineDragManager\<close>

text \<open>
  The class is a record of its fields; a method takes the manager and returns the updated
  manager with the list of calls it made to the outside (callbacks, observers, timers,
  animation frames). Console logging is left out. The part of the document the manager
  reads and writes is kept beside its fields: the bounding rectangle of the container
  (\<open>None\<close> when \<open>querySelector\<close> found no element), the rectangles of the rendered
  rows, the class list of every element, and whether \<open>onMouseMove\<close> and \<open>onMouseUp\<close> are
  registered on the document.
\<close>

record DragCreateState =
  isActive :: bool
  dc_resourceId :: "string option"
  startDate :: "Date option"
  endDate :: "Date option"
  startIndex :: "int option"
  endIndex :: "int option"

record Position =
  pos_x :: real
  pos_y :: real

record DragState =
  isDragging :: bool
  currentEvent :: "TimelineEvent option"
  offset :: Position
  eventWidth :: "int option"

text \<open>The event object handed to the relocation callback, whose \<open>end\<close> is the computed
  date and so may be an Invalid Date: the copy \<open>{ ...event }\<close> that \<open>handleDrop\<close> updates,
  the event itself in the hook.\<close>

record DroppedEvent =
  de_id :: string
  de_resourceId :: string
  de_title :: string
  de_start :: Date
  de_end :: "Date option"
  de_style_width :: "int option"

definition spread :: "TimelineEvent \<Rightarrow> DroppedEvent" where
  "spread event =
     \<lparr>de_id = ev_id event, de_resourceId = resourceId event, de_title = title event,
      de_start = ev_start event, de_end = Some (ev_end event),
      de_style_width = style_width event\<rparr>"

record EventDropInfo =
  info_event :: DroppedEvent
  info_resourceId :: string
  info_start :: Date
  info_end :: "Date option"
  originalWidth :: "int option"
  preserveWidth :: bool

record Rect =
  rect_left :: real
  rect_right :: real
  rect_top :: real
  rect_bottom :: real

record Ghost =
  ghost_left :: real
  ghost_top :: real
  ghost_width :: "int option"
  ghost_text :: string

record VirtualList =
  scrollOffset :: "real option"

datatype effect =
    NotifyDragCreateStateChange DragCreateState
  | NotifyDragStateChange DragState
  | NotifyResourceIndexChange "int option"
  | OnEventDrop EventDropInfo
  | SetErrorMessage string
  | OpenReservationModal string Date Date
  | CancelAnimationFrame int
  | RequestAnimationFrame
  | GhostRemove
  | PreventDefault
  | SetTimeoutResetDropping nat

text \<open>The callback \<open>onEventDrop\<close> is \<open>None\<close> when it is not configured, otherwise a
  function of the drop information that tells whether the call throws. The fields
  \<open>setErrorMessage\<close> and \<open>handleOpenReservationModal\<close> tell whether these callbacks are
  configured; a call of either is an effect, and so is a notification of the observers,
  whoever has subscribed.\<close>

record TimelineDragManager =
  containerElement :: "Rect option"
  listElement :: "VirtualList option"
  resources :: "TimelineResource list"
  dateColumns :: "Date list"
  cellWidth :: int
  cellHeight :: int
  editable :: bool
  droppable :: bool
  eventMap :: "(string \<times> TimelineEvent) list"
  dragCreateState :: DragCreateState
  dragState :: DragState
  currentResourceIndex :: "int option"
  dragGhost :: "Ghost option"
  isDropping :: bool
  isScrolling :: bool
  verticalScrollSpeed :: int
  horizontalScrollSpeed :: int
  currentScrollTop :: real
  lastScrollTime :: int
  animationFrameId :: "int option"
  onEventDrop :: "(EventDropInfo \<Rightarrow> bool) option"
  setErrorMessage :: bool
  handleOpenReservationModal :: bool
  rowElements :: "Rect list"
  documentClasses :: "string list list"
  documentMouseMove :: bool
  documentMouseUp :: bool

definition scrollThreshold :: real where
  "scrollThreshold = 60"


definition idleDragCreateState :: DragCreateState where
  "idleDragCreateState =
     \<lparr>isActive = False, dc_resourceId = None, startDate = None, endDate = None,
      startIndex = None, endIndex = None\<rparr>"

definition idleDragState :: DragState where
  "idleDragState =
     \<lparr>isDragging = False, currentEvent = None, offset = \<lparr>pos_x = 0, pos_y = 0\<rparr>,
      eventWidth = None\<rparr>"

type_synonym step = "TimelineDragManager \<times> effect list"

definition andThen :: "step \<Rightarrow> (TimelineDragManager \<Rightarrow> step) \<Rightarrow> step" where
  "andThen r f = (let r' = f (fst r) in (fst r', snd r @ snd r'))"

subsection \<open>State updates with observer notification\<close>

definition updateDragCreateState :: "DragCreateState \<Rightarrow> TimelineDragManager \<Rightarrow> step" where
  "updateDragCreateState newState m =
     (m\<lparr>dragCreateState := newState\<rparr>, [NotifyDragCreateStateChange newState])"

definition updateDragState :: "DragState \<Rightarrow> TimelineDragManager \<Rightarrow> step" where
  "updateDragState newState m =
     (m\<lparr>dragState := newState\<rparr>, [NotifyDragStateChange newState])"

definition updateResourceIndex :: "int option \<Rightarrow> TimelineDragManager \<Rightarrow> step" where
  "updateResourceIndex index m =
     (m\<lparr>currentResourceIndex := index\<rparr>, [NotifyResourceIndexChange index])"

subsection \<open>Helpers\<close>

definition stopScrolling :: "TimelineDragManager \<Rightarrow> step" where
  "stopScrolling m =
     (if \<not> isScrolling m then (m, [])
      else
        (let m1 = m\<lparr>isScrolling := False, horizontalScrollSpeed := 0, verticalScrollSpeed := 0\<rparr>
         in case animationFrameId m1 of
              None \<Rightarrow> (m1, [])
            | Some fid \<Rightarrow>
                if fid \<noteq> 0 then (m1\<lparr>animationFrameId := None\<rparr>, [CancelAnimationFrame fid])
                else (m1, [])))"


definition removeDragGhost :: "TimelineDragManager \<Rightarrow> step" where
  "removeDragGhost m =
     (case dragGhost m of
        None \<Rightarrow> (m, [])
      | Some ghost \<Rightarrow> (m\<lparr>dragGhost := None\<rparr>, [GhostRemove]))"

definition cleanupDragState :: "TimelineDragManager \<Rightarrow> step" where
  "cleanupDragState m =
     andThen (andThen (stopScrolling m) removeDragGhost)
       (\<lambda>m. (m\<lparr>documentMouseMove := False, documentMouseUp := False\<rparr>, []))"

definition getCurrentScrollTop :: "TimelineDragManager \<Rightarrow> real" where
  "getCurrentScrollTop m =
     (case listElement m of
        None \<Rightarrow> 0
      | Some l \<Rightarrow> (case scrollOffset l of Some n \<Rightarrow> n | None \<Rightarrow> 0))"

text \<open>The loop over the rendered rows of \<open>findResourceIndexFromPosition\<close>: the position of the
  first row whose rectangle holds \<open>mouseY\<close>.\<close>

fun findRow :: "real \<Rightarrow> Rect list \<Rightarrow> int \<Rightarrow> int option" where
  "findRow mouseY [] i = None"
| "findRow mouseY (rowRect # rows) i =
     (if mouseY \<ge> rect_top rowRect \<and> mouseY \<le> rect_bottom rowRect then Some i
      else findRow mouseY rows (i + 1))"

definition findResourceIndexFromPosition :: "real \<Rightarrow> TimelineDragManager \<Rightarrow> int option" where
  "findResourceIndexFromPosition mouseY m =
     (case containerElement m of
        None \<Rightarrow> None
      | Some containerRect \<Rightarrow>
          (let yRelativeToTop = mouseY - rect_top containerRect
           in if yRelativeToTop \<le> 0 then Some 0
              else
                (case findRow mouseY (rowElements m) 0 of
                   Some visibleIndex \<Rightarrow>
                     (let approximateIndex =
                            \<lfloor>getCurrentScrollTop m / real_of_int (cellHeight m)\<rfloor> + visibleIndex
                      in Some (min approximateIndex (int (length (resources m)) - 1)))
                 | None \<Rightarrow> Some (int (length (resources m)) - 1))))"

text \<open>\<open>querySelectorAll(sel).forEach(el => el.classList.remove(c))\<close> for a selector that is a
  conjunction of classes.\<close>

definition removeClassWhere :: "string list \<Rightarrow> string \<Rightarrow> string list list \<Rightarrow> string list list" where
  "removeClassWhere sel c doc =
     map (\<lambda>classes. if set sel \<subseteq> set classes then filter (\<lambda>k. k \<noteq> c) classes else classes) doc"


subsection \<open>Create gesture\<close>

definition handleMouseDown ::
  "real \<Rightarrow> string \<Rightarrow> Date \<Rightarrow> int \<Rightarrow> bool \<Rightarrow> TimelineDragManager \<Rightarrow> step" where
  "handleMouseDown clientY rid date dateIndex isOccupied m =
     (if \<not> droppable m \<or> isOccupied \<or> \<not> editable m then (m, [])
      else
        andThen (andThen (andThen (andThen
          (cleanupDragState m)
          (\<lambda>m. (m\<lparr>currentScrollTop := getCurrentScrollTop m\<rparr>, [])))
          (updateDragCreateState
             \<lparr>isActive = True, dc_resourceId = Some rid, startDate = Some date, endDate = Some date,
              startIndex = Some dateIndex, endIndex = Some dateIndex\<rparr>))
          (\<lambda>m. case findResourceIndexFromPosition clientY m of
                  Some foundIndex \<Rightarrow> updateResourceIndex (Some foundIndex) m
                | None \<Rightarrow> (m, [])))
          (\<lambda>m. (m\<lparr>documentMouseMove := True, documentMouseUp := True\<rparr>, [PreventDefault])))"




subsection \<open>Move gesture\<close>

text \<open>The four passes of \<open>handleDragEnd\<close> over the document, in the order of the source:
  \<open>.timeline-event.dragging\<close>, \<open>.date-cell.drag-over\<close>, \<open>.date-cell.drag-not-allowed\<close>,
  \<open>.drag-highlight-row\<close>.\<close>

definition removeDragClasses :: "string list list \<Rightarrow> string list list" where
  "removeDragClasses doc =
     removeClassWhere [''drag-highlight-row''] ''drag-highlight-row''
       (removeClassWhere [''date-cell'', ''drag-not-allowed''] ''drag-not-allowed''
         (removeClassWhere [''date-cell'', ''drag-over''] ''drag-over''
           (removeClassWhere [''timeline-event'', ''dragging''] ''dragging'' doc)))"

definition handleDragEnd :: "TimelineDragManager \<Rightarrow> step" where
  "handleDragEnd m =
     andThen (andThen (andThen (andThen (andThen
       (stopScrolling m)
       removeDragGhost)
       (\<lambda>m. (m\<lparr>documentClasses := removeDragClasses (documentClasses m)\<rparr>, [])))
       (updateDragState idleDragState))
       (updateResourceIndex None))
       (\<lambda>m. (m\<lparr>documentMouseMove := False\<rparr>, []))"

text \<open>The clean-up of the drop target in \<open>handleDrop\<close>: every date cell that carries
  \<open>drag-over\<close> or \<open>drag-not-allowed\<close> loses both. The cell under the pointer is a date cell
  itself, so the pass over the document covers it.\<close>

definition cleanDropClasses :: "string list list \<Rightarrow> string list list" where
  "cleanDropClasses doc =
     map (\<lambda>classes.
            if ''date-cell'' \<in> set classes \<and>
               (''drag-over'' \<in> set classes \<or> ''drag-not-allowed'' \<in> set classes)
            then filter (\<lambda>k. k \<noteq> ''drag-not-allowed'') (filter (\<lambda>k. k \<noteq> ''drag-over'') classes)
            else classes) doc"

definition emitError :: "string \<Rightarrow> TimelineDragManager \<Rightarrow> step" where
  "emitError msg m = (m, if setErrorMessage m then [SetErrorMessage msg] else [])"

text \<open>The call \<open>checkForConflicts(resourceId, date, newEnd, event.id)\<close> of \<open>handleDrop\<close>.
  When \<open>newEnd\<close> is an Invalid Date the comparison \<open>endDate > eventStart\<close> is false for
  every event, so \<open>some\<close> finds none.\<close>

definition checkDropConflict ::
  "(string \<times> TimelineEvent) list \<Rightarrow> string \<Rightarrow> Date \<Rightarrow> Date option \<Rightarrow> string \<Rightarrow> bool" where
  "checkDropConflict events rid date newEnd eventId =
     (case newEnd of
        None \<Rightarrow> False
      | Some validEnd \<Rightarrow> checkForConflicts events rid date validEnd (Some eventId))"

text \<open>\<open>handleDrop\<close>. The duration is a difference of two time values and the new end
  the time value of \<open>new Date(date.getTime() + eventDuration)\<close>: both operations round, and
  the date is invalid when the sum leaves the range of time values.\<close>

definition handleDrop ::
  "string \<Rightarrow> Date \<Rightarrow> TimelineEvent \<Rightarrow> bool \<Rightarrow> TimelineDragManager \<Rightarrow> step" where
  "handleDrop rid date event e m =
     (case onEventDrop m of
        None \<Rightarrow> (m, [])
      | Some callback \<Rightarrow>
          (let m1 = m\<lparr>isDropping := True\<rparr>;
               m2 = (if e then m1\<lparr>documentClasses := cleanDropClasses (documentClasses m1)\<rparr> else m1);
               eventStart = ev_start event;
               eventEnd = ev_end event;
               eventDuration = fl (of_int eventEnd - of_int eventStart);
               newEnd = timeClip (fl (of_int date + eventDuration));
               conflict = checkDropConflict (eventMap m2) rid date newEnd (ev_id event)
           in if conflict then
                andThen (andThen
                  (emitError ''Cannot drop event: time slot already occupied'' m2)
                  handleDragEnd)
                  (\<lambda>m. (m\<lparr>isDropping := False\<rparr>, []))
              else
                (let keepWidth = (case eventWidth (dragState m2) of
                                    Some w \<Rightarrow> w \<noteq> 0 | None \<Rightarrow> False);
                     updatedEvent =
                       (spread event)
                         \<lparr>de_style_width := (if keepWidth then eventWidth (dragState m2)
                                             else style_width event),
                          de_start := date, de_end := newEnd, de_resourceId := rid\<rparr>;
                     info = \<lparr>info_event = updatedEvent, info_resourceId = rid, info_start = date,
                             info_end = newEnd, originalWidth = eventWidth (dragState m2),
                             preserveWidth = True\<rparr>
                 in andThen (andThen (andThen
                      (m2, [OnEventDrop info])
                      (\<lambda>m. if callback info
                            then emitError ''Error occurred while updating event. Please try again.'' m
                            else (m, [])))
                      handleDragEnd)
                      (\<lambda>m. (m, [SetTimeoutResetDropping 300])))))"

subsection \<open>Auto-scroll\<close>

text \<open>\<open>checkForAutoScroll\<close> computes the horizontal speed from \<open>x\<close> and the left and right
  edges, and the vertical speed from \<open>y\<close> and the top and bottom edges, by the same
  expression. The pointer position and the edges are doubles; every sum, difference and
  quotient is rounded.\<close>

definition edgeSpeed :: "real \<Rightarrow> real \<Rightarrow> real \<Rightarrow> int" where
  "edgeSpeed lo hi p =
     (if p < fl (lo + scrollThreshold)
      then - \<lceil>fl (fl (scrollThreshold - fl (p - lo)) / 4)\<rceil>
      else if p > fl (hi - scrollThreshold)
      then \<lceil>fl (fl (p - fl (hi - scrollThreshold)) / 4)\<rceil>
      else 0)"


section \<open>The hook useTimelineDrag\<close>

text \<open>
  The parts of the hook that the properties below are about: its refs and React state as a
  record, the listeners it keeps in \<open>eventListenersRef\<close> as flags, the option callbacks
  \<open>setErrorMessage\<close>, \<open>handleOpenReservationModal\<close> (both default to a no-op, so they can
  always be called) and \<open>onEventDrop\<close> (optional) as effects.
\<close>

record TimelineDragHook =
  h_droppable :: bool
  h_editable :: bool
  h_getEventsForResource :: "string \<Rightarrow> TimelineEvent list"
  h_onEventDrop :: bool
  dragCreateStateRef :: DragCreateState
  h_dragCreateState :: DragCreateState
  h_currentResourceIndex :: "int option"
  mouseMoveHandler :: bool
  mouseUpHandler :: bool
  autoScroll_active :: bool
  autoScroll_verticalScrollSpeed :: int
  autoScroll_horizontalScrollSpeed :: int
  autoScroll_animationFrameId :: int
  autoScroll_currentVerticalScroll :: real
  dragGhostRef :: "Ghost option"
  isMounted :: bool

type_synonym hstep = "TimelineDragHook \<times> effect list"

definition stopAutoScroll :: "TimelineDragHook \<Rightarrow> hstep" where
  "stopAutoScroll h =
     (if \<not> autoScroll_active h then (h, [])
      else
        (let h1 = h\<lparr>autoScroll_active := False, autoScroll_verticalScrollSpeed := 0,
                     autoScroll_horizontalScrollSpeed := 0\<rparr>
         in if autoScroll_animationFrameId h1 \<noteq> 0
            then (h1\<lparr>autoScroll_animationFrameId := 0\<rparr>,
                  [CancelAnimationFrame (autoScroll_animationFrameId h1)])
            else (h1, [])))"

definition cleanupListeners :: "TimelineDragHook \<Rightarrow> hstep" where
  "cleanupListeners h =
     (let h1 = h\<lparr>mouseMoveHandler := False, mouseUpHandler := False\<rparr>;
          (h2, t2) = stopAutoScroll h1
      in case dragGhostRef h2 of
           None \<Rightarrow> (h2, t2)
         | Some ghost \<Rightarrow> (h2\<lparr>dragGhostRef := None\<rparr>, t2 @ [GhostRemove]))"

text \<open>\<open>handleCellMouseDown\<close>; \<open>foundIndex\<close> is the result of hit-testing the rows at the
  pointer, \<open>listScroll\<close> the scroll offset of the list when the list is mounted. The guard
  also tests the date, which is an object and so never fails the test.\<close>

definition handleCellMouseDown ::
  "int option \<Rightarrow> real option \<Rightarrow> string \<Rightarrow> Date \<Rightarrow> int \<Rightarrow> bool \<Rightarrow> TimelineDragHook \<Rightarrow> hstep" where
  "handleCellMouseDown foundIndex listScroll rid date dateIndex isOccupied h =
     (if \<not> h_droppable h \<or> isOccupied \<or> \<not> h_editable h \<or> \<not> truthy rid then (h, [])
      else
        (let (h1, t1) = cleanupListeners h;
             h2 = (case foundIndex of
                     Some i \<Rightarrow> h1\<lparr>h_currentResourceIndex := Some i\<rparr> | None \<Rightarrow> h1);
             h3 = (case listScroll of
                     Some off \<Rightarrow> h2\<lparr>autoScroll_currentVerticalScroll := off\<rparr> | None \<Rightarrow> h2);
             initialState =
               \<lparr>isActive = True, dc_resourceId = Some rid, startDate = Some date,
                endDate = Some date, startIndex = Some dateIndex, endIndex = Some dateIndex\<rparr>
         in (h3\<lparr>dragCreateStateRef := initialState, h_dragCreateState := initialState,
                 mouseMoveHandler := True, mouseUpHandler := True\<rparr>,
             t1 @ [PreventDefault])))"


text \<open>\<open>handleEventDrop\<close>. The event is an object, so the guard fails only when the
  component is unmounted. The duration and the new end are computed as in the manager. The
  function logs \<open>newEnd.toISOString()\<close> before it calls the callback, and \<open>toISOString\<close>
  of an Invalid Date throws a \<open>RangeError\<close>.\<close>

definition handleEventDrop ::
  "string \<Rightarrow> Date \<Rightarrow> TimelineEvent \<Rightarrow> TimelineDragHook \<Rightarrow> error + hstep" where
  "handleEventDrop rid date event h =
     (if \<not> isMounted h then Inr (h, [])
      else
        (let adjustedDate = date;
             eventStart = ev_start event;
             eventEnd = ev_end event;
             eventDuration = fl (of_int eventEnd - of_int eventStart);
             newEnd = timeClip (fl (of_int adjustedDate + eventDuration))
         in if newEnd = None then Inl RangeError
            else
              (let dropInfo = \<lparr>info_event = spread event, info_resourceId = rid,
                               info_start = adjustedDate, info_end = newEnd,
                               originalWidth = None, preserveWidth = False\<rparr>;
                   t0 = (if h_onEventDrop h then [OnEventDrop dropInfo] else [])
               in case dragGhostRef h of
                    None \<Rightarrow> Inr (h, t0)
                  | Some ghost \<Rightarrow> Inr (h\<lparr>dragGhostRef := None\<rparr>, t0 @ [GhostRemove]))))"


section \<open>Reading a list of effects\<close>

definition isCancel :: "effect \<Rightarrow> bool" where
  "isCancel ef = (case ef of CancelAnimationFrame fid \<Rightarrow> True | _ \<Rightarrow> False)"

definition isGhostRemove :: "effect \<Rightarrow> bool" where
  "isGhostRemove ef = (case ef of GhostRemove \<Rightarrow> True | _ \<Rightarrow> False)"


definition isOnEventDrop :: "effect \<Rightarrow> bool" where
  "isOnEventDrop ef = (case ef of OnEventDrop info \<Rightarrow> True | _ \<Rightarrow> False)"

definition noMatch :: "string list \<Rightarrow> string list list \<Rightarrow> bool" where
  "noMatch sel doc = (\<forall>classes \<in> set doc. \<not> set sel \<subseteq> set classes)"

text \<open>The end that \<open>handleDrop\<close> and \<open>handleEventDrop\<close> compute for a drop at \<open>date\<close>.\<close>

definition newEndOf :: "Date \<Rightarrow> TimelineEvent \<Rightarrow> Date option" where
  "newEndOf date event =
     timeClip (fl (of_int date + fl (of_int (ev_end event) - of_int (ev_start event))))"

text \<open>The magnitude of the speed that \<open>handleAutoScroll\<close> computes at the distance \<open>d\<close>
  from an edge.\<close>

definition hookRamp :: "real \<Rightarrow> int" where
  "hookRamp d = \<lceil>fl (max 0 (fl (1 - fl (d / 60))) * 30)\<rceil>"

text \<open>The manager as \<open>handleDrop\<close> has left it when it calls the conflict check: the
  dropping flag set and, when the drag event was passed, the drop classes cleaned.\<close>

definition dropPrepared :: "bool \<Rightarrow> TimelineDragManager \<Rightarrow> TimelineDragManager" where
  "dropPrepared e m =
     (if e then m\<lparr>isDropping := True, documentClasses := cleanDropClasses (documentClasses m)\<rparr>
      else m\<lparr>isDropping := True\<rparr>)"

text \<open>The day keys that stepping one day at a time from \<open>s\<close> reaches before \<open>e\<close>.\<close>

definition steppedDays :: "Date \<Rightarrow> Date \<Rightarrow> int set" where
  "steppedDays s e = {d. \<exists>k \<ge> 0. d = dayOf s + k \<and> s + k * msPerDay < e}"

section \<open>Example data\<close>

text \<open>Resource \<open>R1\<close> with one event over the days 3 and 4, that is \<open>[day3, day5)\<close>.\<close>

definition day :: "int \<Rightarrow> Date" where
  "day n = n * msPerDay"

definition eventR1 :: TimelineEvent where
  "eventR1 = \<lparr>ev_id = ''e1'', resourceId = ''R1'', title = ''Meeting'',
              ev_start = day 3, ev_end = day 5, style_width = None\<rparr>"

text \<open>An event whose id is the empty string.\<close>

definition eventNoId :: TimelineEvent where
  "eventNoId = \<lparr>ev_id = [], resourceId = ''R1'', title = ''Meeting'',
                ev_start = day 3, ev_end = day 5, style_width = None\<rparr>"

text \<open>The event \<open>E\<close> of two days on \<open>R1\<close>, \<open>[day1, day3)\<close>, and a manager in the middle of
  dragging it: auto-scroll runs with frame 7, the ghost is shown, a cell is highlighted.\<close>

definition eventE :: TimelineEvent where
  "eventE = \<lparr>ev_id = ''E'', resourceId = ''R1'', title = ''Task'',
             ev_start = day 1, ev_end = day 3, style_width = None\<rparr>"

definition draggingManager :: TimelineDragManager where
  "draggingManager =
     \<lparr>containerElement = Some \<lparr>rect_left = 0, rect_right = 1000, rect_top = 0, rect_bottom = 600\<rparr>,
      listElement = Some \<lparr>scrollOffset = Some 0\<rparr>,
      resources = [\<lparr>res_id = ''R1'', res_title = ''Room 1''\<rparr>, \<lparr>res_id = ''R2'', res_title = ''Room 2''\<rparr>],
      dateColumns = map day [0, 1, 2, 3, 4, 5, 6, 7, 8, 9, 10, 11, 12, 13],
      cellWidth = 120, cellHeight = 60, editable = True, droppable = True,
      eventMap = [(''E'', eventE), (''e1'', eventR1)],
      dragCreateState = idleDragCreateState,
      dragState = \<lparr>isDragging = True, currentEvent = Some eventE,
                   offset = \<lparr>pos_x = 10, pos_y = 5\<rparr>, eventWidth = Some 240\<rparr>,
      currentResourceIndex = Some 0,
      dragGhost = Some \<lparr>ghost_left = 300, ghost_top = 100, ghost_width = Some 240, ghost_text = ''Task''\<rparr>,
      isDropping = False, isScrolling = True,
      verticalScrollSpeed = 0, horizontalScrollSpeed = 14,
      currentScrollTop = 0, lastScrollTime = 0, animationFrameId = Some 7,
      onEventDrop = Some (\<lambda>info. False), setErrorMessage = True, handleOpenReservationModal = True,
      rowElements = [\<lparr>rect_left = 0, rect_right = 1000, rect_top = 0, rect_bottom = 60\<rparr>,
                     \<lparr>rect_left = 0, rect_right = 1000, rect_top = 60, rect_bottom = 120\<rparr>],
      documentClasses = [[''timeline-event'', ''dragging''], [''date-cell'', ''drag-over''], [''date-cell'']],
      documentMouseMove = True, documentMouseUp = False\<rparr>"

text \<open>The relocation that dropping \<open>E\<close> on \<open>R2\<close> at day 10 emits.\<close>

definition droppedInfo :: EventDropInfo where
  "droppedInfo =
     \<lparr>info_event = \<lparr>de_id = ''E'', de_resourceId = ''R2'', de_title = ''Task'',
                     de_start = day 10, de_end = Some (day 12), de_style_width = Some 240\<rparr>,
      info_resourceId = ''R2'', info_start = day 10, info_end = Some (day 12),
      originalWidth = Some 240, preserveWidth = True\<rparr>"

text \<open>The relocation that dropping \<open>E\<close> on \<open>R2\<close> at the last time value emits: its end is an
  Invalid Date.\<close>

definition lastDropInfo :: EventDropInfo where
  "lastDropInfo =
     \<lparr>info_event = \<lparr>de_id = ''E'', de_resourceId = ''R2'', de_title = ''Task'',
                     de_start = maxTimeValue, de_end = None, de_style_width = Some 240\<rparr>,
      info_resourceId = ''R2'', info_start = maxTimeValue, info_end = None,
      originalWidth = Some 240, preserveWidth = True\<rparr>"

text \<open>An event from one millisecond after the first time value to the last one; its duration,
  \<open>17279999999999999\<close> milliseconds, is not a double.\<close>

definition eventAllTime :: TimelineEvent where
  "eventAllTime = \<lparr>ev_id = ''all'', resourceId = ''R1'', title = ''Era'',
                   ev_start = - 8639999999999999, ev_end = 8640000000000000,
                   style_width = None\<rparr>"

text \<open>The same manager at rest, with daily columns; and with the monthly columns of the
  first quarter of 1970 (1 January, 1 February, 1 March).\<close>

definition idleManager :: TimelineDragManager where
  "idleManager =
     draggingManager\<lparr>dragState := idleDragState, currentResourceIndex := None, dragGhost := None,
       isScrolling := False, horizontalScrollSpeed := 0, animationFrameId := None,
       documentClasses := [[''timeline-event''], [''date-cell''], [''date-cell'']],
       documentMouseMove := False\<rparr>"


definition idleHook :: TimelineDragHook where
  "idleHook =
     \<lparr>h_droppable = True, h_editable = True,
      h_getEventsForResource = getEventsForResource [eventE, eventR1],
      h_onEventDrop = True,
      dragCreateStateRef = idleDragCreateState, h_dragCreateState = idleDragCreateState,
      h_currentResourceIndex = None, mouseMoveHandler = False, mouseUpHandler = False,
      autoScroll_active = False, autoScroll_verticalScrollSpeed = 0,
      autoScroll_horizontalScrollSpeed = 0, autoScroll_animationFrameId = 0,
      autoScroll_currentVerticalScroll = 0, dragGhostRef = None, isMounted = True\<rparr>"








text \<open>The daily columns of two weeks; an event that spans them all, one that lies after
  them, and a meeting on day 5 from 10:00 to 12:00.\<close>

definition twoWeeks :: "Date list" where
  "twoWeeks = map day [0, 1, 2, 3, 4, 5, 6, 7, 8, 9, 10, 11, 12, 13]"

definition eventLong :: TimelineEvent where
  "eventLong = \<lparr>ev_id = ''long'', resourceId = ''R1'', title = ''Project'',
                ev_start = day (-5), ev_end = day 30, style_width = None\<rparr>"

definition eventFar :: TimelineEvent where
  "eventFar = \<lparr>ev_id = ''far'', resourceId = ''R1'', title = ''Planning'',
               ev_start = day 20, ev_end = day 22, style_width = None\<rparr>"

definition eventMeeting :: TimelineEvent where
  "eventMeeting = \<lparr>ev_id = ''meeting'', resourceId = ''R1'', title = ''Team Meeting'',
                   ev_start = day 5 + 36000000, ev_end = day 5 + 43200000,
                   style_width = None\<rparr>"

text \<open>Two resources.\<close>

definition roomR1 :: TimelineResource where
  "roomR1 = \<lparr>res_id = ''R1'', res_title = ''Room 1''\<rparr>"

definition roomR2 :: TimelineResource where
  "roomR2 = \<lparr>res_id = ''R2'', res_title = ''Room 2''\<rparr>"

text \<open>The dragging manager without a relocation callback.\<close>

definition silentManager :: TimelineDragManager where
  "silentManager = draggingManager\<lparr>onEventDrop := None\<rparr>"

text \<open>A resource whose id is the empty string, and an event on it over the days 1 and 2.\<close>

definition roomNoId :: TimelineResource where
  "roomNoId = \<lparr>res_id = [], res_title = ''Spare room''\<rparr>"

definition eventOnNoId :: TimelineEvent where
  "eventOnNoId = \<lparr>ev_id = ''e9'', resourceId = [], title = ''Task'',
                  ev_start = day 1, ev_end = day 3, style_width = None\<rparr>"

text \<open>An event from day -10 until 05:00 on day 0.\<close>

definition eventUntilFive :: TimelineEvent where
  "eventUntilFive = \<lparr>ev_id = ''five'', resourceId = ''R1'', title = ''Shift'',
                     ev_start = day (-10), ev_end = day 0 + 18000000, style_width = None\<rparr>"

section \<open>Rounding to the nearest double\<close>

lemma binExp_ge1:
  assumes "1 \<le> x"
  shows "2 powi (binExp x) \<le> x" "x < 2 powi (binExp x + 1)"
proof -
  let ?b = "bitlen \<lfloor>x\<rfloor>"
  from assms have p: "0 < \<lfloor>x\<rfloor>" by linarith
  then have b1: "1 \<le> ?b" by (simp add: bitlen_alt_def)
  from bitlen_bounds [OF p] have lo: "2 ^ nat (?b - 1) \<le> \<lfloor>x\<rfloor>" and hi: "\<lfloor>x\<rfloor> < 2 ^ nat ?b"
    by simp_all
  from lo have "of_int (2 ^ nat (?b - 1)) \<le> x" by (simp only: le_floor_iff)
  then have l: "(2::real) ^ nat (?b - 1) \<le> x" by simp
  from hi have "x < of_int (2 ^ nat ?b)" by (simp only: floor_less_iff)
  then have h: "x < (2::real) ^ nat ?b" by simp
  have e: "binExp x = ?b - 1" using assms by (simp add: binExp_def)
  have "(2::real) powi (binExp x) = 2 ^ nat (?b - 1)"
    unfolding e using b1 by (simp add: power_int_def)
  with l show "2 powi (binExp x) \<le> x" by simp
  have "(2::real) powi (binExp x + 1) = 2 ^ nat ?b"
    unfolding e using b1 by (simp add: power_int_def)
  with h show "x < 2 powi (binExp x + 1)" by simp
qed

lemma binExp_lt1:
  assumes "0 < x" "x < 1"
  shows "2 powi (binExp x) \<le> x" "x < 2 powi (binExp x + 1)"
proof -
  let ?n = "\<lceil>1 / x\<rceil> - 1"
  let ?c = "bitlen ?n"
  from assms have y: "1 < 1 / x" by simp
  then have p: "0 < ?n" by linarith
  then have c1: "1 \<le> ?c" by (simp add: bitlen_alt_def)
  from bitlen_bounds [OF p] have lo: "2 ^ nat (?c - 1) \<le> ?n" and hi: "?n < 2 ^ nat ?c"
    by simp_all
  from hi have "\<lceil>1 / x\<rceil> \<le> 2 ^ nat ?c" by simp
  then have "1 / x \<le> of_int (2 ^ nat ?c)" by (simp only: ceiling_le_iff)
  then have h: "1 / x \<le> (2::real) ^ nat ?c" by simp
  from lo have "2 ^ nat (?c - 1) < \<lceil>1 / x\<rceil>" by simp
  then have "of_int (2 ^ nat (?c - 1)) < 1 / x" by (simp only: less_ceiling_iff)
  then have l: "(2::real) ^ nat (?c - 1) < 1 / x" by simp
  have e: "binExp x = - ?c" using assms by (simp add: binExp_def)
  have "(2::real) powi (binExp x) = 1 / 2 ^ nat ?c"
    unfolding e using c1 by (simp add: power_int_def inverse_eq_divide power_one_over)
  moreover from h assms have "1 / 2 ^ nat ?c \<le> x" by (simp add: field_simps)
  ultimately show "2 powi (binExp x) \<le> x" by simp
  have "(2::real) powi (binExp x + 1) = 1 / 2 ^ nat (?c - 1)"
  proof (cases "?c = 1")
    case True
    then show ?thesis unfolding e by simp
  next
    case False
    with c1 have "- ?c + 1 < 0" "nat (- (- ?c + 1)) = nat (?c - 1)" by simp_all
    then show ?thesis unfolding e
      by (simp add: power_int_def inverse_eq_divide power_one_over)
  qed
  moreover from l assms have "x < 1 / 2 ^ nat (?c - 1)" by (simp add: field_simps)
  ultimately show "x < 2 powi (binExp x + 1)" by simp
qed

lemma binExp_bounds:
  assumes "0 < x"
  shows "2 powi (binExp x) \<le> x" "x < 2 powi (binExp x + 1)"
  using assms binExp_ge1 [of x] binExp_lt1 [of x] by (cases "1 \<le> x"; simp)+

lemma roundHalfEven_of_int [simp]: "roundHalfEven (of_int n) = n"
  by (simp add: roundHalfEven_def)

text \<open>A product of an integer below \<open>2^53\<close> in magnitude and a power of two is a double.\<close>

lemma fl_exact:
  assumes m: "\<bar>m\<bar> < 2 ^ 53" and k: "- 1074 \<le> k"
  shows "fl (of_int m * 2 powi k) = of_int m * 2 powi k"
proof (cases "m = 0")
  case True
  then show ?thesis by (simp add: fl_def)
next
  case False
  let ?x = "of_int m * (2::real) powi k"
  let ?e = "binExp \<bar>?x\<bar>"
  let ?e' = "max ?e (- 1022)"
  have pos: "0 < \<bar>?x\<bar>" using False by simp
  have "(2::real) powi ?e \<le> \<bar>?x\<bar>" by (rule binExp_bounds(1) [OF pos])
  also have "\<bar>?x\<bar> = \<bar>of_int m\<bar> * 2 powi k" by (simp add: abs_mult)
  also have "\<dots> < 2 ^ 53 * 2 powi k"
  proof -
    from m have "\<bar>real_of_int m\<bar> < 2 ^ 53"
      by (metis of_int_abs of_int_less_iff of_int_numeral of_int_power)
    then show ?thesis by (intro mult_strict_right_mono) simp_all
  qed
  also have "\<dots> = 2 powi (53 + k)" by (simp add: power_int_add)
  finally have "(2::real) powi ?e < 2 powi (53 + k)" .
  then have "?e < 53 + k"
    using power_int_increasing [of "53 + k" ?e "2::real"] by (cases "?e < 53 + k") simp_all
  with k have ge: "0 \<le> k - (?e' - 52)" by simp
  have "?x / 2 powi (?e' - 52) = of_int m * 2 powi (k - (?e' - 52))"
    by (simp add: power_int_diff)
  also have "\<dots> = of_int (m * 2 ^ nat (k - (?e' - 52)))"
    using ge by (simp add: power_int_def)
  finally have q: "?x / 2 powi (?e' - 52) = of_int (m * 2 ^ nat (k - (?e' - 52)))" .
  have "fl ?x = of_int (roundHalfEven (?x / 2 powi (?e' - 52))) * 2 powi (?e' - 52)"
    using False by (simp add: fl_def Let_def)
  also have "\<dots> = ?x / 2 powi (?e' - 52) * 2 powi (?e' - 52)"
    unfolding q roundHalfEven_of_int ..
  also have "\<dots> = ?x" by simp
  finally show ?thesis .
qed

lemma fl_of_int:
  assumes "\<bar>n\<bar> \<le> 2 ^ 53"
  shows "fl (of_int n) = of_int n"
proof (cases "\<bar>n\<bar> < 2 ^ 53")
  case True
  from fl_exact [OF True, of 0] show ?thesis by simp
next
  case False
  with assms have "n = 2 ^ 53 \<or> n = - (2 ^ 53)" by linarith
  then show ?thesis
  proof
    assume n: "n = 2 ^ 53"
    from fl_exact [of 1 53] show ?thesis unfolding n by (simp add: power_int_def)
  next
    assume n: "n = - (2 ^ 53)"
    from fl_exact [of "- 1" 53] show ?thesis unfolding n by (simp add: power_int_def)
  qed
qed





text \<open>Rounding to the nearest whole number and rounding to the nearest double keep the
  order.\<close>

lemma roundHalfEven_cases:
  "roundHalfEven r = \<lfloor>r\<rfloor> \<or> roundHalfEven r = \<lfloor>r\<rfloor> + 1"
  by (simp add: roundHalfEven_def Let_def)

lemma roundHalfEven_floor_le: "\<lfloor>r\<rfloor> \<le> roundHalfEven r"
  using roundHalfEven_cases [of r] by linarith

lemma roundHalfEven_le_ceiling: "roundHalfEven r \<le> \<lfloor>r\<rfloor> + 1"
  using roundHalfEven_cases [of r] by linarith

lemma roundHalfEven_mono:
  assumes "r \<le> s"
  shows "roundHalfEven r \<le> roundHalfEven s"
proof (cases "\<lfloor>r\<rfloor> = \<lfloor>s\<rfloor>")
  case False
  with assms have "\<lfloor>r\<rfloor> < \<lfloor>s\<rfloor>" by (simp add: floor_mono le_neq_trans)
  then have "\<lfloor>r\<rfloor> + 1 \<le> \<lfloor>s\<rfloor>" by simp
  with roundHalfEven_le_ceiling [of r] roundHalfEven_floor_le [of s] show ?thesis by linarith
next
  case True
  with assms have "r - of_int \<lfloor>r\<rfloor> \<le> s - of_int \<lfloor>s\<rfloor>" by simp
  then show ?thesis
    unfolding roundHalfEven_def Let_def True by (auto split: if_splits)
qed

lemma roundHalfEven_near: "\<bar>of_int (roundHalfEven r) - r\<bar> \<le> 1 / 2"
  unfolding roundHalfEven_def Let_def by (auto split: if_splits)

lemma roundHalfEven_minus: "roundHalfEven (- r) = - roundHalfEven r"
proof (cases "r = of_int \<lfloor>r\<rfloor>")
  case True
  then obtain n where "r = of_int n" ..
  then show ?thesis by (simp flip: of_int_minus)
next
  case False
  then have f: "\<lfloor>- r\<rfloor> = - \<lfloor>r\<rfloor> - 1"
    by (metis Ints_of_int ceiling_def diff_minus_eq_add floor_minus ceiling_altdef add.commute
        minus_diff_eq uminus_add_conv_diff minus_minus of_int_floor_cancel)
  show ?thesis
    unfolding roundHalfEven_def Let_def f by (auto split: if_splits)
qed


lemma binExp_mono:
  assumes "0 < x" "x \<le> y"
  shows "binExp x \<le> binExp y"
proof -
  from assms have y: "0 < y" by simp
  from binExp_bounds(1) [OF assms(1)] binExp_bounds(2) [OF y] assms(2)
  have "(2::real) powi (binExp x) < 2 powi (binExp y + 1)" by linarith
  then have "binExp x < binExp y + 1"
    using power_int_increasing [of "binExp y + 1" "binExp x" "2::real"]
    by (cases "binExp x < binExp y + 1") simp_all
  then show ?thesis by simp
qed

lemma fl_pos:
  assumes "0 < x"
  shows "fl x = of_int (roundHalfEven (x / 2 powi (max (binExp x) (- 1022) - 52)))
                  * 2 powi (max (binExp x) (- 1022) - 52)"
  using assms by (simp add: fl_def Let_def)

lemma fl_minus: "fl (- x) = - fl x"
  by (simp add: fl_def Let_def roundHalfEven_minus)

lemma fl_nonneg:
  assumes "0 \<le> x"
  shows "0 \<le> fl x"
proof (cases "x = 0")
  case True
  then show ?thesis by (simp add: fl_def)
next
  case False
  with assms have x: "0 < x" by simp
  let ?u = "(2::real) powi (max (binExp x) (- 1022) - 52)"
  have "0 \<le> x / ?u" using x by simp
  moreover have "roundHalfEven 0 = 0" using roundHalfEven_of_int [of 0] by simp
  ultimately have "0 \<le> roundHalfEven (x / ?u)" using roundHalfEven_mono [of 0 "x / ?u"] by simp
  then show ?thesis unfolding fl_pos [OF x] by simp
qed

lemma fl_mono_pos:
  assumes "0 < x" "x \<le> y"
  shows "fl x \<le> fl y"
proof -
  from assms have y: "0 < y" by simp
  let ?ex = "max (binExp x) (- 1022)" and ?ey = "max (binExp y) (- 1022)"
  let ?ux = "(2::real) powi (?ex - 52)" and ?uy = "(2::real) powi (?ey - 52)"
  have le: "?ex \<le> ?ey" using binExp_mono [OF assms] by simp
  show ?thesis
  proof (cases "?ex = ?ey")
    case True
    have "x / ?ux \<le> y / ?ux" using assms by (simp add: divide_right_mono)
    from roundHalfEven_mono [OF this]
    have "of_int (roundHalfEven (x / ?ux)) * ?ux \<le> of_int (roundHalfEven (y / ?ux)) * ?ux"
      by (simp add: mult_right_mono)
    then show ?thesis unfolding fl_pos [OF assms(1)] fl_pos [OF y] True .
  next
    case False
    with le have lt: "?ex < ?ey" by linarith
    then have ey: "?ey = binExp y" by linarith
    have "x < 2 powi (binExp x + 1)" by (rule binExp_bounds(2) [OF assms(1)])
    also have "\<dots> \<le> 2 powi (?ex + 1)" by (rule power_int_increasing) simp_all
    finally have "x / ?ux \<le> 2 powi (?ex + 1) / ?ux" by (simp add: divide_right_mono)
    also have "\<dots> = 2 ^ 53" by (simp add: power_int_diff power_int_add)
    finally have "x / ?ux \<le> of_int (2 ^ 53)" by simp
    from roundHalfEven_mono [OF this] have "roundHalfEven (x / ?ux) \<le> 2 ^ 53"
      by (simp only: roundHalfEven_of_int)
    then have "of_int (roundHalfEven (x / ?ux)) \<le> (2::real) ^ 53"
      by (metis of_int_le_iff of_int_numeral of_int_power)
    then have "fl x \<le> 2 ^ 53 * ?ux"
      unfolding fl_pos [OF assms(1)] by (simp add: mult_right_mono)
    also have "\<dots> = 2 powi (?ex + 1)" by (simp add: power_int_diff power_int_add)
    also have "\<dots> \<le> 2 powi ?ey"
    proof (rule power_int_increasing)
      from lt show "?ex + 1 \<le> ?ey" by linarith
    qed simp
    finally have a: "fl x \<le> 2 powi ?ey" .
    have "2 powi ?ey \<le> y" unfolding ey by (rule binExp_bounds(1) [OF y])
    then have "2 powi ?ey / ?uy \<le> y / ?uy" by (simp add: divide_right_mono)
    moreover have "2 powi ?ey / ?uy = of_int (2 ^ 52)" by (simp add: power_int_diff)
    ultimately have "of_int (2 ^ 52) \<le> y / ?uy" by simp
    from roundHalfEven_mono [OF this] have "2 ^ 52 \<le> roundHalfEven (y / ?uy)"
      by (simp only: roundHalfEven_of_int)
    then have "(2::real) ^ 52 \<le> of_int (roundHalfEven (y / ?uy))"
      by (metis of_int_le_iff of_int_numeral of_int_power)
    then have "2 ^ 52 * ?uy \<le> fl y"
      unfolding fl_pos [OF y] by (simp add: mult_right_mono)
    moreover have "2 ^ 52 * ?uy = 2 powi ?ey" by (simp add: power_int_diff)
    ultimately have "2 powi ?ey \<le> fl y" by simp
    with a show ?thesis by simp
  qed
qed

lemma fl_mono:
  assumes "x \<le> y"
  shows "fl x \<le> fl y"
proof -
  consider "0 < x" | "x \<le> 0" "0 \<le> y" | "y < 0" by linarith
  then show ?thesis
  proof cases
    case 1
    then show ?thesis using assms by (rule fl_mono_pos)
  next
    case 2
    then have "0 \<le> fl (- x)" "0 \<le> fl y" by (simp_all add: fl_nonneg)
    then show ?thesis by (simp add: fl_minus)
  next
    case 3
    with assms have "0 < - y" "- y \<le> - x" by simp_all
    from fl_mono_pos [OF this] show ?thesis by (simp add: fl_minus)
  qed
qed

text \<open>The odd number \<open>17279999999999999\<close>, above \<open>2^53\<close>, lies half-way between two
  doubles and rounds to the one whose significand is even.\<close>

lemma fl_tie: "fl 17279999999999999 = 17280000000000000"
  by code_simp

lemma timeClip_of_int:
  "\<bar>n\<bar> \<le> maxTimeValue \<Longrightarrow> timeClip (of_int n) = Some n"
  "maxTimeValue < \<bar>n\<bar> \<Longrightarrow> timeClip (of_int n) = None"
  by (simp_all add: timeClip_def flip: of_int_abs)

lemma newEndOf_exact:
  assumes "\<bar>ev_end event - ev_start event\<bar> \<le> 2 ^ 53"
    and "\<bar>date + (ev_end event - ev_start event)\<bar> \<le> maxTimeValue"
  shows "newEndOf date event = Some (date + (ev_end event - ev_start event))"
proof -
  let ?d = "ev_end event - ev_start event"
  have "fl (of_int (ev_end event) - of_int (ev_start event)) = of_int ?d"
    using fl_of_int [OF assms(1)] by simp
  moreover have "fl (of_int date + of_int ?d) = of_int (date + ?d)"
  proof -
    from assms(2) have "\<bar>date + ?d\<bar> \<le> 2 ^ 53" by (simp add: maxTimeValue_def)
    from fl_of_int [OF this] show ?thesis by simp
  qed
  ultimately show ?thesis
    using timeClip_of_int(1) [OF assms(2)] by (simp add: newEndOf_def)
qed

lemma newEndOf_invalid:
  assumes "\<bar>ev_end event - ev_start event\<bar> \<le> 2 ^ 53"
    and "\<bar>date + (ev_end event - ev_start event)\<bar> \<le> 2 ^ 53"
    and "maxTimeValue < \<bar>date + (ev_end event - ev_start event)\<bar>"
  shows "newEndOf date event = None"
proof -
  let ?d = "ev_end event - ev_start event"
  have "fl (of_int (ev_end event) - of_int (ev_start event)) = of_int ?d"
    using fl_of_int [OF assms(1)] by simp
  moreover have "fl (of_int date + of_int ?d) = of_int (date + ?d)"
    using fl_of_int [OF assms(2)] by simp
  ultimately show ?thesis
    using timeClip_of_int(2) [OF assms(3)] by (simp add: newEndOf_def)
qed

section \<open>Conflict detection\<close>

lemma map_get_map_set: "map_get (map_set k v m) k' = (if k' = k then Some v else map_get m k')"
  by (induction m) (auto simp: map_get_def)

lemma getEventsForResource_snoc:
  "getEventsForResource (events @ [e]) rid =
     (if truthy (resourceId e) \<and> resourceId e = rid
      then getEventsForResource events rid @ [e]
      else getEventsForResource events rid)"
  by (auto simp: getEventsForResource_def resourceEventIndex_def index_push_def Let_def map_get_map_set)

lemma getEventsForResource_filter:
  "getEventsForResource events rid =
     (if truthy rid then filter (\<lambda>e. resourceId e = rid) events else [])"
proof (induction events rule: rev_induct)
  case Nil
  show ?case by (simp add: getEventsForResource_def resourceEventIndex_def map_get_def)
next
  case (snoc e events)
  then show ?case by (auto simp: getEventsForResource_snoc)
qed

lemma checkTimeSlotConflict_iff:
  "checkTimeSlotConflict events R s e X =
     (R \<noteq> [] \<and> (\<exists>ev \<in> set events. resourceId ev = R \<and>
        (case X of None \<Rightarrow> True | Some x \<Rightarrow> x = [] \<or> ev_id ev \<noteq> x) \<and>
        s < ev_end ev \<and> ev_start ev < e))"
  by (auto simp: checkTimeSlotConflict_def getEventsForResource_filter list_ex_iff
      excludeFilter_def truthy_def Let_def split: option.splits)

lemma checkForConflicts_iff:
  "checkForConflicts m R s e X =
     (\<exists>ev \<in> set (map_values m). resourceId ev = R \<and>
        (case X of None \<Rightarrow> True | Some x \<Rightarrow> x = [] \<or> ev_id ev \<noteq> x) \<and>
        s < ev_end ev \<and> ev_start ev < e)"
  by (auto simp: checkForConflicts_def list_ex_iff
      excludeFilter_def truthy_def Let_def split: option.splits)

text \<open>
  C1 (as amended). An excluded id that is the empty string excludes nothing, and
  \<open>checkTimeSlotConflict\<close> reports no conflict for the empty resource id. Apart from that
  both checks return true exactly when some event of the resource, other than the excluded
  one, has an interval \<open>[b0, b1)\<close> with \<open>s < b1\<close> and \<open>b0 < e\<close>; so a candidate that every
  event of the resource ends before or at, or starts after or at, is free of conflict,
  adjacency included.
\<close>

theorem conflict_iff_half_open_overlap:
  "(checkTimeSlotConflict events R s e X \<longleftrightarrow>
      R \<noteq> [] \<and> (\<exists>ev \<in> set events. resourceId ev = R \<and>
        (\<forall>x. X = Some x \<and> x \<noteq> [] \<longrightarrow> ev_id ev \<noteq> x) \<and> s < ev_end ev \<and> ev_start ev < e)) \<and>
   (checkForConflicts m R s e X \<longleftrightarrow>
      (\<exists>ev \<in> set (map_values m). resourceId ev = R \<and>
        (\<forall>x. X = Some x \<and> x \<noteq> [] \<longrightarrow> ev_id ev \<noteq> x) \<and> s < ev_end ev \<and> ev_start ev < e)) \<and>
   ((\<forall>ev \<in> set events. resourceId ev = R \<longrightarrow> ev_end ev \<le> s \<or> e \<le> ev_start ev) \<longrightarrow>
      \<not> checkTimeSlotConflict events R s e X) \<and>
   ((\<forall>ev \<in> set (map_values m). resourceId ev = R \<longrightarrow> ev_end ev \<le> s \<or> e \<le> ev_start ev) \<longrightarrow>
      \<not> checkForConflicts m R s e X)"
proof -
  have a: "(case X of None \<Rightarrow> True | Some x \<Rightarrow> x = [] \<or> ev_id ev \<noteq> x) =
           (\<forall>x. X = Some x \<and> x \<noteq> [] \<longrightarrow> ev_id ev \<noteq> x)" for ev
    by (cases X) auto
  show ?thesis
    unfolding checkTimeSlotConflict_iff checkForConflicts_iff a
    by (intro conjI impI) force+
qed

text \<open>On \<open>R1\<close> with the event \<open>[day3, day5)\<close>: the candidate \<open>[day4, day6)\<close> conflicts, the
  adjacent candidates \<open>[day5, day6)\<close> and \<open>[day2, day3)\<close> do not, and \<open>[day4, day6)\<close> is free
  once the event itself is excluded.\<close>

theorem conflict_iff_half_open_overlap_witness:
  "checkTimeSlotConflict [eventR1] ''R1'' (day 4) (day 6) None \<and>
   \<not> checkTimeSlotConflict [eventR1] ''R1'' (day 5) (day 6) None \<and>
   \<not> checkTimeSlotConflict [eventR1] ''R1'' (day 2) (day 3) None \<and>
   \<not> checkTimeSlotConflict [eventR1] ''R1'' (day 4) (day 6) (Some ''e1'') \<and>
   checkForConflicts (eventMap_memo [eventR1]) ''R1'' (day 4) (day 6) None \<and>
   \<not> checkForConflicts (eventMap_memo [eventR1]) ''R1'' (day 5) (day 6) None \<and>
   \<not> checkForConflicts (eventMap_memo [eventR1]) ''R1'' (day 4) (day 6) (Some ''e1'')"
  using conflict_iff_half_open_overlap [of "[eventR1]" "''R1''" "day 4" "day 6" None "eventMap_memo [eventR1]"]
        conflict_iff_half_open_overlap [of "[eventR1]" "''R1''" "day 5" "day 6" None "eventMap_memo [eventR1]"]
        conflict_iff_half_open_overlap [of "[eventR1]" "''R1''" "day 2" "day 3" None "eventMap_memo [eventR1]"]
        conflict_iff_half_open_overlap [of "[eventR1]" "''R1''" "day 4" "day 6" "Some ''e1''" "eventMap_memo [eventR1]"]
  by (simp add: eventR1_def day_def msPerDay_def eventMap_memo_def truthy_def map_values_def)

text \<open>The claim as stated fails when the excluded id is the empty string: the only event of
  \<open>R1\<close> has the excluded id, and both checks still report a conflict.\<close>

theorem conflict_empty_exclude_counterexample:
  "ev_id eventNoId = [] \<and>
   checkTimeSlotConflict [eventNoId] ''R1'' (day 4) (day 6) (Some []) \<and>
   checkForConflicts [([], eventNoId)] ''R1'' (day 4) (day 6) (Some [])"
  by (simp add: checkTimeSlotConflict_def checkForConflicts_def getEventsForResource_filter
      excludeFilter_def truthy_def eventNoId_def day_def msPerDay_def map_values_def)

section \<open>Move gesture: drop and clean-up\<close>

lemma andThen_simps:
  "fst (andThen r f) = fst (f (fst r))"
  "snd (andThen r f) = snd r @ snd (f (fst r))"
  by (simp_all add: andThen_def Let_def)

lemma stopScrolling_fst:
  "fst (stopScrolling m) =
     (if isScrolling m
      then m\<lparr>isScrolling := False, horizontalScrollSpeed := 0, verticalScrollSpeed := 0,
             animationFrameId := (if animationFrameId m = Some 0 then Some 0 else None)\<rparr>
      else m)"
  by (auto simp: stopScrolling_def Let_def split: option.splits)

lemma stopScrolling_snd:
  "snd (stopScrolling m) =
     (case animationFrameId m of
        Some fid \<Rightarrow> if isScrolling m \<and> fid \<noteq> 0 then [CancelAnimationFrame fid] else []
      | None \<Rightarrow> [])"
  by (auto simp: stopScrolling_def Let_def split: option.splits)

lemma removeDragGhost_fst: "fst (removeDragGhost m) = m\<lparr>dragGhost := None\<rparr>"
  by (auto simp: removeDragGhost_def split: option.splits)

lemma removeDragGhost_snd:
  "snd (removeDragGhost m) = (if dragGhost m = None then [] else [GhostRemove])"
  by (auto simp: removeDragGhost_def split: option.splits)

lemma removeClassWhere_noMatch_after:
  "c \<in> set sel \<Longrightarrow> noMatch sel (removeClassWhere sel c doc)"
  by (auto simp: noMatch_def removeClassWhere_def)

lemma removeClassWhere_noMatch_kept:
  "noMatch sel doc \<Longrightarrow> noMatch sel (removeClassWhere sel' c' doc)"
  by (fastforce simp: noMatch_def removeClassWhere_def)

lemma removeClassWhere_noop:
  "noMatch sel doc \<Longrightarrow> removeClassWhere sel c doc = doc"
  by (auto simp: noMatch_def removeClassWhere_def intro: map_idI)

lemma removeDragClasses_idem: "removeDragClasses (removeDragClasses doc) = removeDragClasses doc"
proof -
  have 1: "noMatch [''timeline-event'', ''dragging''] (removeDragClasses doc)"
    unfolding removeDragClasses_def
    by (rule removeClassWhere_noMatch_kept, rule removeClassWhere_noMatch_kept, rule removeClassWhere_noMatch_kept, rule removeClassWhere_noMatch_after) simp
  have 2: "noMatch [''date-cell'', ''drag-over''] (removeDragClasses doc)"
    unfolding removeDragClasses_def
    by (rule removeClassWhere_noMatch_kept, rule removeClassWhere_noMatch_kept, rule removeClassWhere_noMatch_after) simp
  have 3: "noMatch [''date-cell'', ''drag-not-allowed''] (removeDragClasses doc)"
    unfolding removeDragClasses_def
    by (rule removeClassWhere_noMatch_kept, rule removeClassWhere_noMatch_after) simp
  have 4: "noMatch [''drag-highlight-row''] (removeDragClasses doc)"
    unfolding removeDragClasses_def
    by (rule removeClassWhere_noMatch_after) simp
  show ?thesis
    by (subst (1) removeDragClasses_def) (simp add: removeClassWhere_noop 1 2 3 4)
qed

lemma handleDragEnd_fst:
  "fst (handleDragEnd m) =
     (fst (stopScrolling m))\<lparr>dragGhost := None,
        documentClasses := removeDragClasses (documentClasses m),
        dragState := idleDragState, currentResourceIndex := None, documentMouseMove := False\<rparr>"
  by (simp add: andThen_simps handleDragEnd_def removeDragGhost_fst updateDragState_def updateResourceIndex_def
      stopScrolling_fst)

lemma handleDragEnd_snd:
  "snd (handleDragEnd m) =
     snd (stopScrolling m) @ (if dragGhost m = None then [] else [GhostRemove]) @
     [NotifyDragStateChange idleDragState, NotifyResourceIndexChange None]"
  by (simp add: andThen_simps handleDragEnd_def removeDragGhost_fst removeDragGhost_snd updateDragState_def
      updateResourceIndex_def stopScrolling_fst)

lemma handleDragEnd_clean:
  "\<not> isScrolling (fst (handleDragEnd m)) \<and> dragGhost (fst (handleDragEnd m)) = None \<and>
   dragState (fst (handleDragEnd m)) = idleDragState \<and>
   currentResourceIndex (fst (handleDragEnd m)) = None \<and>
   \<not> documentMouseMove (fst (handleDragEnd m)) \<and>
   eventMap (fst (handleDragEnd m)) = eventMap m \<and>
   isDropping (fst (handleDragEnd m)) = isDropping m \<and>
   documentClasses (fst (handleDragEnd m)) = removeDragClasses (documentClasses m)"
  by (simp add: handleDragEnd_fst stopScrolling_fst)

lemma handleDragEnd_idem:
  "fst (handleDragEnd (fst (handleDragEnd m))) = fst (handleDragEnd m)"
  by (simp add: handleDragEnd_fst stopScrolling_fst removeDragClasses_idem)

lemma handleDragEnd_second_effects:
  "snd (handleDragEnd (fst (handleDragEnd m))) =
     [NotifyDragStateChange idleDragState, NotifyResourceIndexChange None]"
  by (simp add: handleDragEnd_snd handleDragEnd_fst stopScrolling_snd stopScrolling_fst
      split: option.splits)


lemma dropPrepared_fields:
  "eventMap (dropPrepared e m) = eventMap m"
  "dragState (dropPrepared e m) = dragState m"
  "setErrorMessage (dropPrepared e m) = setErrorMessage m"
  by (simp_all add: dropPrepared_def)

lemma handleDrop_conflict:
  assumes "onEventDrop m = Some callback"
    and "checkDropConflict (eventMap m) rid date (newEndOf date event) (ev_id event)"
  shows "handleDrop rid date event e m =
           ((fst (handleDragEnd (dropPrepared e m)))\<lparr>isDropping := False\<rparr>,
            (if setErrorMessage m then [SetErrorMessage ''Cannot drop event: time slot already occupied''] else [])
            @ snd (handleDragEnd (dropPrepared e m)))"
  using assms
  by (simp add: handleDrop_def Let_def newEndOf_def dropPrepared_def andThen_def emitError_def)

lemma handleDrop_clear:
  assumes "onEventDrop m = Some callback"
    and "\<not> checkDropConflict (eventMap m) rid date (newEndOf date event) (ev_id event)"
  shows "\<exists>info. info_resourceId info = rid \<and> info_start info = date \<and>
           info_end info = newEndOf date event \<and>
           de_start (info_event info) = date \<and> de_end (info_event info) = newEndOf date event \<and>
           de_resourceId (info_event info) = rid \<and> de_id (info_event info) = ev_id event \<and>
           handleDrop rid date event e m =
             (fst (handleDragEnd (dropPrepared e m)),
              [OnEventDrop info] @
              (if callback info \<and> setErrorMessage m
               then [SetErrorMessage ''Error occurred while updating event. Please try again.''] else [])
              @ snd (handleDragEnd (dropPrepared e m)) @ [SetTimeoutResetDropping 300])"
  using assms
  by (simp add: handleDrop_def Let_def newEndOf_def dropPrepared_def andThen_def emitError_def
      spread_def)

lemma handleDrop_clear_mem:
  assumes "onEventDrop m = Some callback"
    and "\<not> checkDropConflict (eventMap m) rid date (newEndOf date event) (ev_id event)"
  shows "OnEventDrop
           \<lparr>info_event =
              \<lparr>de_id = ev_id event, de_resourceId = rid, de_title = title event,
               de_start = date, de_end = newEndOf date event,
               de_style_width =
                 (if (case eventWidth (dragState m) of Some w \<Rightarrow> w \<noteq> 0 | None \<Rightarrow> False)
                  then eventWidth (dragState m) else style_width event)\<rparr>,
            info_resourceId = rid, info_start = date, info_end = newEndOf date event,
            originalWidth = eventWidth (dragState m), preserveWidth = True\<rparr>
         \<in> set (snd (handleDrop rid date event e m))"
  using assms
  by (simp add: handleDrop_def Let_def newEndOf_def andThen_def emitError_def spread_def)

lemma handleDragEnd_no_drop: "filter isOnEventDrop (snd (handleDragEnd m)) = []"
  by (simp add: handleDragEnd_snd stopScrolling_snd isOnEventDrop_def split: option.splits)

lemma handleDragEnd_no_drop_mem: "OnEventDrop info \<notin> set (snd (handleDragEnd m))"
  by (simp add: handleDragEnd_snd stopScrolling_snd split: option.splits)

lemma one_drop_emitted:
  "length (filter isOnEventDrop t) = 1 \<Longrightarrow> \<exists>info. OnEventDrop info \<in> set t"
proof -
  assume "length (filter isOnEventDrop t) = 1"
  then have "filter isOnEventDrop t \<noteq> []" by auto
  then obtain ef where ef: "ef \<in> set t" "isOnEventDrop ef"
    by (metis filter_False)
  from ef(2) obtain info where "ef = OnEventDrop info"
    by (cases ef) (simp_all add: isOnEventDrop_def)
  with ef(1) show ?thesis by blast
qed

lemma eventE_newEnd:
  "newEndOf (day 2) eventE = Some (day 4)"
  "newEndOf (day 10) eventE = Some (day 12)"
  "newEndOf maxTimeValue eventE = None"
proof -
  have d: "\<bar>ev_end eventE - ev_start eventE\<bar> \<le> 2 ^ 53"
    by (simp add: eventE_def day_def msPerDay_def)
  show "newEndOf (day 2) eventE = Some (day 4)"
    using newEndOf_exact [OF d, of "day 2"]
    by (simp add: eventE_def day_def msPerDay_def maxTimeValue_def)
  show "newEndOf (day 10) eventE = Some (day 12)"
    using newEndOf_exact [OF d, of "day 10"]
    by (simp add: eventE_def day_def msPerDay_def maxTimeValue_def)
  show "newEndOf maxTimeValue eventE = None"
    using newEndOf_invalid [OF d, of maxTimeValue]
    by (simp add: eventE_def day_def msPerDay_def maxTimeValue_def)
qed

lemma eventAllTime_newEnd: "newEndOf (- maxTimeValue) eventAllTime = Some maxTimeValue"
proof -
  have "fl (of_int (ev_end eventAllTime) - of_int (ev_start eventAllTime)) = 17280000000000000"
    using fl_tie by (simp add: eventAllTime_def)
  moreover have "fl (of_int (- maxTimeValue) + 17280000000000000) = of_int maxTimeValue"
    using fl_of_int [of maxTimeValue] by (simp add: maxTimeValue_def)
  moreover have "timeClip (of_int maxTimeValue) = Some maxTimeValue"
    by (rule timeClip_of_int(1)) (simp add: maxTimeValue_def)
  ultimately show ?thesis by (simp add: newEndOf_def)
qed

lemma draggingManager_conflict:
  "checkDropConflict (eventMap draggingManager) ''R1'' (day 2) (newEndOf (day 2) eventE) (ev_id eventE)"
  "\<not> checkDropConflict (eventMap draggingManager) ''R2'' (day 10) (newEndOf (day 10) eventE) (ev_id eventE)"
  "\<not> checkDropConflict (eventMap draggingManager) ''R2'' maxTimeValue (newEndOf maxTimeValue eventE) (ev_id eventE)"
  unfolding eventE_newEnd
  by (simp_all add: checkDropConflict_def checkForConflicts_iff draggingManager_def map_values_def
      eventE_def eventR1_def day_def msPerDay_def)

lemma handleEventDrop_valid:
  assumes "newEndOf date event = Some newEnd"
  shows "handleEventDrop rid date event h =
           Inr (if \<not> isMounted h then (h, [])
                else (h\<lparr>dragGhostRef := None\<rparr>,
                      (if h_onEventDrop h
                       then [OnEventDrop \<lparr>info_event = spread event, info_resourceId = rid,
                                          info_start = date, info_end = Some newEnd,
                                          originalWidth = None, preserveWidth = False\<rparr>]
                       else [])
                      @ (if dragGhostRef h = None then [] else [GhostRemove])))"
  using assms
  by (cases "dragGhostRef h") (simp_all add: handleEventDrop_def newEndOf_def Let_def)

lemma handleEventDrop_invalid:
  assumes "newEndOf date event = None" and "isMounted h"
  shows "handleEventDrop rid date event h = Inl RangeError"
  using assms by (simp add: handleEventDrop_def newEndOf_def Let_def)

text \<open>Inside the range of dates the check of \<open>handleDrop\<close> is the conflict check on the
  interval from the target date to the target date plus the duration.\<close>

lemma checkDropConflict_in_range:
  assumes "\<bar>ev_end event - ev_start event\<bar> \<le> 2 ^ 53"
    and "\<bar>date + (ev_end event - ev_start event)\<bar> \<le> maxTimeValue"
  shows "checkDropConflict evs rid date (newEndOf date event) (ev_id event) =
           checkForConflicts evs rid date (date + (ev_end event - ev_start event))
             (Some (ev_id event))"
  by (simp add: checkDropConflict_def newEndOf_exact [OF assms])

text \<open>
  C2 (as amended). When the original duration \<open>e0 - s0\<close> is at most \<open>2^53\<close> milliseconds in
  magnitude, so that it is a double, and the target start plus that duration is a time value
  (at most \<open>8.64e15\<close> in magnitude), every relocation that a drop emits starts at the target
  date and ends at the target date plus the original duration, so \<open>e1 - s1 = e0 - s0\<close>: in
  \<open>handleDrop\<close> of the manager (where the copy of the event handed over carries the same
  interval) and in \<open>handleEventDrop\<close> of the hook, which then returns normally. A relocation
  is emitted by the manager when the callback is configured and the check finds no conflict,
  by the hook when it is mounted and the callback is configured.
\<close>

theorem move_preserves_duration:
  assumes "\<bar>ev_end event - ev_start event\<bar> \<le> 2 ^ 53"
    and "\<bar>date + (ev_end event - ev_start event)\<bar> \<le> maxTimeValue"
  shows
  "(\<forall>info. OnEventDrop info \<in> set (snd (handleDrop rid date event e m)) \<longrightarrow>
      info_start info = date \<and> info_end info = Some (date + (ev_end event - ev_start event)) \<and>
      (\<exists>e1. info_end info = Some e1 \<and> e1 - info_start info = ev_end event - ev_start event) \<and>
      (\<exists>e1. de_end (info_event info) = Some e1 \<and>
            e1 - de_start (info_event info) = ev_end event - ev_start event)) \<and>
   (\<exists>h' t. handleEventDrop rid date event h = Inr (h', t) \<and>
      (\<forall>info. OnEventDrop info \<in> set t \<longrightarrow>
         info_start info = date \<and> info_end info = Some (date + (ev_end event - ev_start event)) \<and>
         (\<exists>e1. info_end info = Some e1 \<and> e1 - info_start info = ev_end event - ev_start event)) \<and>
      (isMounted h \<and> h_onEventDrop h \<longrightarrow> (\<exists>info. OnEventDrop info \<in> set t))) \<and>
   (onEventDrop m \<noteq> None \<and>
    \<not> checkForConflicts (eventMap m) rid date (date + (ev_end event - ev_start event))
        (Some (ev_id event)) \<longrightarrow>
      (\<exists>info. OnEventDrop info \<in> set (snd (handleDrop rid date event e m))))"
proof -
  let ?d = "ev_end event - ev_start event"
  note ne = newEndOf_exact [OF assms]
  have manager: "info_start info = date \<and> info_end info = Some (date + ?d) \<and>
      (\<exists>e1. info_end info = Some e1 \<and> e1 - info_start info = ?d) \<and>
      (\<exists>e1. de_end (info_event info) = Some e1 \<and> e1 - de_start (info_event info) = ?d)"
    if a: "OnEventDrop info \<in> set (snd (handleDrop rid date event e m))" for info
  proof (cases "onEventDrop m")
    case None
    with a show ?thesis by (simp add: handleDrop_def)
  next
    case (Some callback)
    show ?thesis
    proof (cases "checkDropConflict (eventMap m) rid date (newEndOf date event) (ev_id event)")
      case True
      from a show ?thesis
        unfolding handleDrop_conflict [OF Some True]
        by (simp add: handleDragEnd_no_drop_mem)
    next
      case False
      from handleDrop_clear [OF Some False, of e] a show ?thesis
        by (auto simp: handleDragEnd_no_drop_mem ne split: if_splits)
    qed
  qed
  have hook: "\<exists>h' t. handleEventDrop rid date event h = Inr (h', t) \<and>
      (\<forall>info. OnEventDrop info \<in> set t \<longrightarrow>
         info_start info = date \<and> info_end info = Some (date + ?d) \<and>
         (\<exists>e1. info_end info = Some e1 \<and> e1 - info_start info = ?d)) \<and>
      (isMounted h \<and> h_onEventDrop h \<longrightarrow> (\<exists>info. OnEventDrop info \<in> set t))"
    unfolding handleEventDrop_valid [OF ne] by auto
  have emitted: "\<exists>info. OnEventDrop info \<in> set (snd (handleDrop rid date event e m))"
    if "onEventDrop m \<noteq> None"
      and c: "\<not> checkForConflicts (eventMap m) rid date (date + ?d) (Some (ev_id event))"
  proof -
    from that obtain callback where s: "onEventDrop m = Some callback" by auto
    from c have "\<not> checkDropConflict (eventMap m) rid date (newEndOf date event) (ev_id event)"
      by (simp add: checkDropConflict_def ne)
    from handleDrop_clear [OF s this, of e] show ?thesis by auto
  qed
  from manager hook emitted show ?thesis by blast
qed

text \<open>Dropping \<open>E = [day1, day3)\<close> on \<open>R2\<close> at day 10 emits the relocation \<open>[day10, day12)\<close>,
  in the manager and in the hook.\<close>

theorem move_preserves_duration_witness:
  "OnEventDrop droppedInfo \<in> set (snd (handleDrop ''R2'' (day 10) eventE True draggingManager)) \<and>
   info_start droppedInfo = day 10 \<and> info_end droppedInfo = Some (day 12) \<and>
   day 12 - day 10 = ev_end eventE - ev_start eventE \<and>
   handleEventDrop ''R2'' (day 10) eventE idleHook =
     Inr (idleHook, [OnEventDrop \<lparr>info_event = spread eventE, info_resourceId = ''R2'',
                                  info_start = day 10, info_end = Some (day 12),
                                  originalWidth = None, preserveWidth = False\<rparr>])"
proof -
  have cb: "onEventDrop draggingManager = Some (\<lambda>info. False)"
    by (simp add: draggingManager_def)
  have d: "\<bar>ev_end eventE - ev_start eventE\<bar> \<le> 2 ^ 53"
    "\<bar>day 10 + (ev_end eventE - ev_start eventE)\<bar> \<le> maxTimeValue"
    by (simp_all add: eventE_def day_def msPerDay_def maxTimeValue_def)
  from handleDrop_clear_mem [OF cb draggingManager_conflict(2), of True, unfolded eventE_newEnd]
  have mem: "OnEventDrop droppedInfo \<in> set (snd (handleDrop ''R2'' (day 10) eventE True draggingManager))"
    by (simp add: droppedInfo_def draggingManager_def eventE_def)
  have hook: "handleEventDrop ''R2'' (day 10) eventE idleHook =
     Inr (idleHook, [OnEventDrop \<lparr>info_event = spread eventE, info_resourceId = ''R2'',
                                  info_start = day 10, info_end = Some (day 12),
                                  originalWidth = None, preserveWidth = False\<rparr>])"
    unfolding handleEventDrop_valid [OF eventE_newEnd(2)] by (simp add: idleHook_def)
  from move_preserves_duration [OF d, of "''R2''" True draggingManager idleHook] mem hook
  show ?thesis by (simp add: droppedInfo_def eventE_def day_def msPerDay_def)
qed

text \<open>The claim as stated, "for every drop", fails at the edge of the range of dates and
  for a duration that is not a double. Dropping \<open>E\<close>, two days long, at the last time
  value makes the manager emit a relocation whose end is an Invalid Date, and makes the hook
  throw before it emits anything. Dropping the event that lasts \<open>17279999999999999\<close>
  milliseconds at the first time value emits an end \<open>17280000000000000\<close> milliseconds after
  the start.\<close>

theorem move_out_of_range_counterexample:
  "OnEventDrop lastDropInfo \<in> set (snd (handleDrop ''R2'' maxTimeValue eventE True draggingManager)) \<and>
   info_end lastDropInfo = None \<and>
   handleEventDrop ''R2'' maxTimeValue eventE idleHook = Inl RangeError \<and>
   handleEventDrop ''R2'' (- maxTimeValue) eventAllTime idleHook =
     Inr (idleHook, [OnEventDrop \<lparr>info_event = spread eventAllTime, info_resourceId = ''R2'',
                                  info_start = - maxTimeValue, info_end = Some maxTimeValue,
                                  originalWidth = None, preserveWidth = False\<rparr>]) \<and>
   maxTimeValue - (- maxTimeValue) \<noteq> ev_end eventAllTime - ev_start eventAllTime"
proof -
  have cb: "onEventDrop draggingManager = Some (\<lambda>info. False)"
    by (simp add: draggingManager_def)
  from handleDrop_clear_mem [OF cb draggingManager_conflict(3), of True, unfolded eventE_newEnd]
  have "OnEventDrop lastDropInfo \<in> set (snd (handleDrop ''R2'' maxTimeValue eventE True draggingManager))"
    by (simp add: lastDropInfo_def draggingManager_def eventE_def)
  moreover have "handleEventDrop ''R2'' maxTimeValue eventE idleHook = Inl RangeError"
    by (rule handleEventDrop_invalid [OF eventE_newEnd(3)]) (simp add: idleHook_def)
  moreover have "handleEventDrop ''R2'' (- maxTimeValue) eventAllTime idleHook =
     Inr (idleHook, [OnEventDrop \<lparr>info_event = spread eventAllTime, info_resourceId = ''R2'',
                                  info_start = - maxTimeValue, info_end = Some maxTimeValue,
                                  originalWidth = None, preserveWidth = False\<rparr>])"
    unfolding handleEventDrop_valid [OF eventAllTime_newEnd] by (simp add: idleHook_def)
  ultimately show ?thesis
    by (simp add: lastDropInfo_def eventAllTime_def maxTimeValue_def)
qed

text \<open>
  C3 (as amended). With the relocation callback configured, \<open>handleDrop\<close> decides by the conflict check
  called with the moved event's own id as the excluded id: the callback is invoked once when
  the check reports no conflict and not at all when it reports one. On conflict the error
  message is sent (when a message sink is configured) and the dropping flag is cleared. If
  the callback throws, the failure message is sent. In every case the clean-up has run:
  no ghost, no scrolling, the drag state reset, no hovered row, no mouse-move listener, no
  drag class left to strip; the event map is as before.
\<close>

theorem drop_gated_by_conflict_check:
  assumes "onEventDrop m = Some callback"
  shows "(let r = handleDrop rid date event e m;
              conflict = checkDropConflict (eventMap m) rid date (newEndOf date event)
                           (ev_id event)
          in length (filter isOnEventDrop (snd r)) = (if conflict then 0 else 1) \<and>
             (conflict \<and> setErrorMessage m \<longrightarrow>
                SetErrorMessage ''Cannot drop event: time slot already occupied'' \<in> set (snd r)) \<and>
             (conflict \<longrightarrow> \<not> isDropping (fst r)) \<and>
             ((\<exists>info. OnEventDrop info \<in> set (snd r) \<and> callback info) \<and> setErrorMessage m \<longrightarrow>
                SetErrorMessage ''Error occurred while updating event. Please try again.''
                  \<in> set (snd r)) \<and>
             dragGhost (fst r) = None \<and> \<not> isScrolling (fst r) \<and>
             dragState (fst r) = idleDragState \<and> currentResourceIndex (fst r) = None \<and>
             \<not> documentMouseMove (fst r) \<and>
             removeDragClasses (documentClasses (fst r)) = documentClasses (fst r) \<and>
             eventMap (fst r) = eventMap m)"
proof (cases "checkDropConflict (eventMap m) rid date (newEndOf date event) (ev_id event)")
  case True
  show ?thesis
    unfolding Let_def handleDrop_conflict [OF assms True]
    using True
    by (simp add: handleDragEnd_clean handleDragEnd_no_drop handleDragEnd_no_drop_mem
        removeDragClasses_idem dropPrepared_fields isOnEventDrop_def)
next
  case False
  from handleDrop_clear [OF assms False, of e] obtain info where
    eq: "handleDrop rid date event e m =
             (fst (handleDragEnd (dropPrepared e m)),
              [OnEventDrop info] @
              (if callback info \<and> setErrorMessage m
               then [SetErrorMessage ''Error occurred while updating event. Please try again.''] else [])
              @ snd (handleDragEnd (dropPrepared e m)) @ [SetTimeoutResetDropping 300])"
    by blast
  show ?thesis
    unfolding Let_def eq
    using False
    by (auto simp: handleDragEnd_clean handleDragEnd_no_drop handleDragEnd_no_drop_mem
        removeDragClasses_idem dropPrepared_fields isOnEventDrop_def)
qed

text \<open>Dropping \<open>E\<close> on \<open>R2\<close> at day 10 calls the callback once; dropping it on \<open>R1\<close> at day 2
  overlaps \<open>[day3, day5)\<close> and is refused with the message; a throwing callback yields the
  failure message and the ghost is gone.\<close>

theorem drop_gated_by_conflict_check_witness:
  "length (filter isOnEventDrop (snd (handleDrop ''R2'' (day 10) eventE True draggingManager))) = 1 \<and>
   length (filter isOnEventDrop (snd (handleDrop ''R1'' (day 2) eventE True draggingManager))) = 0 \<and>
   SetErrorMessage ''Cannot drop event: time slot already occupied''
     \<in> set (snd (handleDrop ''R1'' (day 2) eventE True draggingManager)) \<and>
   dragGhost (fst (handleDrop ''R1'' (day 2) eventE True draggingManager)) = None \<and>
   \<not> isScrolling (fst (handleDrop ''R1'' (day 2) eventE True draggingManager)) \<and>
   dragState (fst (handleDrop ''R1'' (day 2) eventE True draggingManager)) = idleDragState \<and>
   eventMap (fst (handleDrop ''R1'' (day 2) eventE True draggingManager)) = eventMap draggingManager \<and>
   SetErrorMessage ''Error occurred while updating event. Please try again.''
     \<in> set (snd (handleDrop ''R2'' (day 10) eventE True
                 (draggingManager\<lparr>onEventDrop := Some (\<lambda>info. True)\<rparr>))) \<and>
   dragGhost (fst (handleDrop ''R2'' (day 10) eventE True
                 (draggingManager\<lparr>onEventDrop := Some (\<lambda>info. True)\<rparr>))) = None"
proof -
  have cb: "onEventDrop draggingManager = Some (\<lambda>info. False)"
    and msg: "setErrorMessage draggingManager"
    by (simp_all add: draggingManager_def)
  let ?m = "draggingManager\<lparr>onEventDrop := Some (\<lambda>info. True)\<rparr>"
  have cb': "onEventDrop ?m = Some (\<lambda>info. True)" and msg': "setErrorMessage ?m"
    and ev': "eventMap ?m = eventMap draggingManager"
    by (simp_all add: draggingManager_def)
  note clear = drop_gated_by_conflict_check [OF cb, of "''R2''" "day 10" eventE True]
  note conflict = drop_gated_by_conflict_check [OF cb, of "''R1''" "day 2" eventE True]
  note throwing = drop_gated_by_conflict_check [OF cb', of "''R2''" "day 10" eventE True]
  have one: "length (filter isOnEventDrop (snd (handleDrop ''R2'' (day 10) eventE True ?m))) = 1"
    using throwing draggingManager_conflict(2) by (simp add: Let_def ev')
  from one_drop_emitted [OF one] throwing msg'
  have "SetErrorMessage ''Error occurred while updating event. Please try again.''
     \<in> set (snd (handleDrop ''R2'' (day 10) eventE True ?m))"
    by (simp add: Let_def)
  moreover have "dragGhost (fst (handleDrop ''R2'' (day 10) eventE True ?m)) = None"
    using throwing by (simp add: Let_def)
  ultimately show ?thesis
    using clear conflict draggingManager_conflict msg by (simp add: Let_def)
qed

text \<open>The claim as stated, "for every drop", fails on a manager that has no relocation
  callback: \<open>handleDrop\<close> returns at once. The drop of \<open>E\<close> on \<open>R1\<close> at day 2 conflicts,
  yet no message is sent and the ghost, the scrolling and the drag state stay as they
  were.\<close>

theorem drop_without_callback_counterexample:
  "handleDrop ''R1'' (day 2) eventE True silentManager = (silentManager, []) \<and>
   checkDropConflict (eventMap silentManager) ''R1'' (day 2) (newEndOf (day 2) eventE)
     (ev_id eventE) \<and>
   dragGhost silentManager \<noteq> None \<and> isScrolling silentManager \<and>
   isDragging (dragState silentManager)"
  unfolding eventE_newEnd
  by (simp add: handleDrop_def silentManager_def draggingManager_def checkDropConflict_def
      checkForConflicts_iff map_values_def eventE_def eventR1_def day_def msPerDay_def)

text \<open>
  C9. Running \<open>handleDragEnd\<close> a second time leaves the manager as the first run left it.
  The second run only notifies the observers: it cancels no animation frame and removes no
  ghost, so over both runs the frame is cancelled at most once and the ghost removed at most
  once. The function has no failing branch.
\<close>

theorem handleDragEnd_idempotent:
  "fst (handleDragEnd (fst (handleDragEnd m))) = fst (handleDragEnd m) \<and>
   snd (handleDragEnd (fst (handleDragEnd m))) =
     [NotifyDragStateChange idleDragState, NotifyResourceIndexChange None] \<and>
   length (filter isCancel (snd (handleDragEnd m) @ snd (handleDragEnd (fst (handleDragEnd m))))) \<le> 1 \<and>
   length (filter isGhostRemove (snd (handleDragEnd m) @ snd (handleDragEnd (fst (handleDragEnd m))))) \<le> 1"
  by (simp add: handleDragEnd_idem handleDragEnd_second_effects)
     (simp add: handleDragEnd_snd stopScrolling_snd isCancel_def isGhostRemove_def split: option.splits)

text \<open>On the dragging manager the first run cancels frame 7 and removes the ghost, the second
  does neither.\<close>

theorem handleDragEnd_idempotent_witness:
  "snd (handleDragEnd draggingManager) =
     [CancelAnimationFrame 7, GhostRemove, NotifyDragStateChange idleDragState,
      NotifyResourceIndexChange None] \<and>
   snd (handleDragEnd (fst (handleDragEnd draggingManager))) =
     [NotifyDragStateChange idleDragState, NotifyResourceIndexChange None] \<and>
   fst (handleDragEnd (fst (handleDragEnd draggingManager))) = fst (handleDragEnd draggingManager)"
proof -
  have "snd (handleDragEnd draggingManager) =
     [CancelAnimationFrame 7, GhostRemove, NotifyDragStateChange idleDragState,
      NotifyResourceIndexChange None]"
    by (simp add: handleDragEnd_snd stopScrolling_snd draggingManager_def)
  with handleDragEnd_idempotent [of draggingManager] show ?thesis by simp
qed

section \<open>Create gesture\<close>




lemma handleMouseDown_active:
  assumes "droppable m" "\<not> isOccupied" "editable m"
  shows "dragCreateState (fst (handleMouseDown clientY rid date dateIndex isOccupied m)) =
           \<lparr>isActive = True, dc_resourceId = Some rid, startDate = Some date, endDate = Some date,
            startIndex = Some dateIndex, endIndex = Some dateIndex\<rparr>"
    and "NotifyDragCreateStateChange
           \<lparr>isActive = True, dc_resourceId = Some rid, startDate = Some date, endDate = Some date,
            startIndex = Some dateIndex, endIndex = Some dateIndex\<rparr>
         \<in> set (snd (handleMouseDown clientY rid date dateIndex isOccupied m))"
  using assms
  by (simp_all add: handleMouseDown_def andThen_simps updateDragCreateState_def
      updateResourceIndex_def split: option.splits)

text \<open>
  C7. A press on a date cell changes nothing and calls nothing (no observer, no message)
  when the cell is occupied, creation (\<open>droppable\<close>) is disabled or editing (\<open>editable\<close>) is
  disabled: \<open>handleMouseDown\<close> of the manager and \<open>handleCellMouseDown\<close> of the hook return
  the state they were given and no effect. On a free cell with both flags set the manager
  enters the active create state anchored at the pressed cell and notifies the observers;
  so does the hook, for a non-empty resource id.
\<close>

theorem press_gated_by_occupancy_and_flags:
  "(\<not> droppable m \<or> isOccupied \<or> \<not> editable m \<longrightarrow>
      handleMouseDown clientY rid date dateIndex isOccupied m = (m, [])) \<and>
   (droppable m \<and> \<not> isOccupied \<and> editable m \<longrightarrow>
      dragCreateState (fst (handleMouseDown clientY rid date dateIndex isOccupied m)) =
        \<lparr>isActive = True, dc_resourceId = Some rid, startDate = Some date, endDate = Some date,
         startIndex = Some dateIndex, endIndex = Some dateIndex\<rparr> \<and>
      NotifyDragCreateStateChange
        \<lparr>isActive = True, dc_resourceId = Some rid, startDate = Some date, endDate = Some date,
         startIndex = Some dateIndex, endIndex = Some dateIndex\<rparr>
        \<in> set (snd (handleMouseDown clientY rid date dateIndex isOccupied m))) \<and>
   (\<not> h_droppable h \<or> isOccupied \<or> \<not> h_editable h \<longrightarrow>
      handleCellMouseDown foundIndex listScroll rid date dateIndex isOccupied h = (h, [])) \<and>
   (h_droppable h \<and> \<not> isOccupied \<and> h_editable h \<and> rid \<noteq> [] \<longrightarrow>
      dragCreateStateRef (fst (handleCellMouseDown foundIndex listScroll rid date dateIndex isOccupied h)) =
        \<lparr>isActive = True, dc_resourceId = Some rid, startDate = Some date, endDate = Some date,
         startIndex = Some dateIndex, endIndex = Some dateIndex\<rparr>)"
proof -
  have hook: "dragCreateStateRef (fst (handleCellMouseDown foundIndex listScroll rid date dateIndex isOccupied h)) =
        \<lparr>isActive = True, dc_resourceId = Some rid, startDate = Some date, endDate = Some date,
         startIndex = Some dateIndex, endIndex = Some dateIndex\<rparr>"
    if "h_droppable h" "\<not> isOccupied" "h_editable h" "rid \<noteq> []"
    using that
    by (simp add: handleCellMouseDown_def truthy_def Let_def case_prod_unfold split: option.splits)
  show ?thesis
    using handleMouseDown_active [where m = m and isOccupied = isOccupied] hook
    by (auto simp: handleMouseDown_def handleCellMouseDown_def)
qed

text \<open>Presses on the idle manager and hook: refused on an occupied cell and with either flag
  off, accepted on the free cell of column 7.\<close>

theorem press_gated_by_occupancy_and_flags_witness:
  "handleMouseDown 30 ''R1'' (day 3) 3 True idleManager = (idleManager, []) \<and>
   handleMouseDown 30 ''R2'' (day 7) 7 False (idleManager\<lparr>droppable := False\<rparr>) =
     (idleManager\<lparr>droppable := False\<rparr>, []) \<and>
   handleMouseDown 30 ''R2'' (day 7) 7 False (idleManager\<lparr>editable := False\<rparr>) =
     (idleManager\<lparr>editable := False\<rparr>, []) \<and>
   isActive (dragCreateState (fst (handleMouseDown 30 ''R2'' (day 7) 7 False idleManager))) \<and>
   handleCellMouseDown (Some 1) (Some 0) ''R1'' (day 3) 3 True idleHook = (idleHook, []) \<and>
   isActive (dragCreateStateRef (fst (handleCellMouseDown (Some 1) (Some 0) ''R2'' (day 7) 7 False idleHook)))"
proof -
  have flags: "droppable idleManager" "editable idleManager" "h_droppable idleHook" "h_editable idleHook"
    by (simp_all add: idleManager_def draggingManager_def idleHook_def)
  from press_gated_by_occupancy_and_flags
         [where m = idleManager and isOccupied = True and h = idleHook and rid = "''R1''"
            and clientY = 30 and date = "day 3" and dateIndex = 3 and foundIndex = "Some 1"
            and listScroll = "Some 0"]
       press_gated_by_occupancy_and_flags
         [where m = "idleManager\<lparr>droppable := False\<rparr>" and isOccupied = False and h = idleHook
            and rid = "''R2''" and clientY = 30 and date = "day 7" and dateIndex = 7
            and foundIndex = "Some 1" and listScroll = "Some 0"]
       press_gated_by_occupancy_and_flags
         [where m = "idleManager\<lparr>editable := False\<rparr>" and isOccupied = False and h = idleHook
            and rid = "''R2''" and clientY = 30 and date = "day 7" and dateIndex = 7
            and foundIndex = "Some 1" and listScroll = "Some 0"]
       press_gated_by_occupancy_and_flags
         [where m = idleManager and isOccupied = False and h = idleHook
            and rid = "''R2''" and clientY = 30 and date = "day 7" and dateIndex = 7
            and foundIndex = "Some 1" and listScroll = "Some 0"]
  show ?thesis using flags by simp
qed






section \<open>Auto-scroll speed\<close>













































































section \<open>Auto-scroll at arbitrary coordinates\<close>

text \<open>Rounding keeps the order, so off the whole pixels the speeds still do not grow with
  the distance: in the hook the magnitude is non-increasing in the distance that the hook
  computes and at most 30, and in the manager the speed is non-decreasing in the pointer
  position within the left zone and within the right zone.\<close>

lemma hookRamp_antitone:
  assumes "d \<le> d'"
  shows "hookRamp d' \<le> hookRamp d"
proof -
  from assms have "d / 60 \<le> d' / 60" by simp
  then have "1 - fl (d' / 60) \<le> 1 - fl (d / 60)" using fl_mono by simp
  then have "max 0 (fl (1 - fl (d' / 60))) * 30 \<le> max 0 (fl (1 - fl (d / 60))) * 30"
    using fl_mono [of "1 - fl (d' / 60)" "1 - fl (d / 60)"] by simp
  then show ?thesis unfolding hookRamp_def by (intro ceiling_mono fl_mono)
qed

lemma hookRamp_range:
  assumes "0 \<le> d"
  shows "0 \<le> hookRamp d" "hookRamp d \<le> 30"
proof -
  have "0 \<le> max 0 (fl (1 - fl (d / 60))) * 30" by simp
  from fl_nonneg [OF this] show "0 \<le> hookRamp d"
    unfolding hookRamp_def by (simp add: ceiling_mono [of 0, simplified])
  from assms have "0 \<le> fl (d / 60)" by (intro fl_nonneg) simp
  then have "1 - fl (d / 60) \<le> 1" by simp
  from fl_mono [OF this] have "fl (1 - fl (d / 60)) \<le> 1" using fl_of_int [of 1] by simp
  then have "max 0 (fl (1 - fl (d / 60))) * 30 \<le> 30" by simp
  from fl_mono [OF this] have "fl (max 0 (fl (1 - fl (d / 60))) * 30) \<le> 30"
    using fl_of_int [of 30] by simp
  then show "hookRamp d \<le> 30" unfolding hookRamp_def by (simp add: ceiling_le_iff)
qed

lemma edgeSpeed_mono_left:
  assumes "p \<le> p'" and "p' < fl (lo + scrollThreshold)"
  shows "edgeSpeed lo hi p \<le> edgeSpeed lo hi p'"
proof -
  from assms(1) have "fl (p - lo) \<le> fl (p' - lo)" by (intro fl_mono) simp
  then have "scrollThreshold - fl (p' - lo) \<le> scrollThreshold - fl (p - lo)" by simp
  from fl_mono [OF this]
  have "fl (scrollThreshold - fl (p' - lo)) / 4 \<le> fl (scrollThreshold - fl (p - lo)) / 4"
    by simp
  from ceiling_mono [OF fl_mono [OF this]] show ?thesis
    using assms by (simp add: edgeSpeed_def)
qed

lemma edgeSpeed_mono_right:
  assumes "p \<le> p'" and "\<not> p < fl (lo + scrollThreshold)" and "fl (hi - scrollThreshold) < p"
  shows "edgeSpeed lo hi p \<le> edgeSpeed lo hi p'"
proof -
  from assms(1) have "fl (p - fl (hi - scrollThreshold)) \<le> fl (p' - fl (hi - scrollThreshold))"
    by (intro fl_mono) simp
  then have "fl (p - fl (hi - scrollThreshold)) / 4 \<le> fl (p' - fl (hi - scrollThreshold)) / 4"
    by simp
  from ceiling_mono [OF fl_mono [OF this]] show ?thesis
    using assms by (simp add: edgeSpeed_def)
qed

section \<open>Geometry of an event\<close>

lemma findIndex_none: "findIndex P xs = -1 \<longleftrightarrow> (\<forall>x \<in> set xs. \<not> P x)"
proof (induction xs)
  case Nil
  show ?case by simp
next
  case (Cons x xs)
  have "- 1 \<le> findIndex P ys" for ys
    by (induction ys) (auto simp: Let_def)
  from this [of xs] Cons show ?case by (auto simp: Let_def)
qed

lemma findIndex_first:
  "i < length xs \<Longrightarrow> P (xs ! i) \<Longrightarrow> (\<forall>k < i. \<not> P (xs ! k)) \<Longrightarrow> findIndex P xs = int i"
proof (induction xs arbitrary: i)
  case Nil
  then show ?case by simp
next
  case (Cons x xs)
  show ?case
  proof (cases i)
    case 0
    with Cons.prems show ?thesis by simp
  next
    case (Suc n)
    with Cons.prems have "\<not> P x" by auto
    moreover from Suc Cons.prems have "findIndex P xs = int n"
      by (intro Cons.IH) auto
    ultimately show ?thesis using Suc by (simp add: Let_def)
  qed
qed

lemma findIndex_sameDay:
  assumes "distinct (map dayOf cols)" "i < length cols" "isSameDay (cols ! i) s"
  shows "findIndex (\<lambda>date. isSameDay date s) cols = int i"
proof -
  have "\<not> isSameDay (cols ! k) s" if "k < i" for k
  proof -
    from that assms(2) have kl: "k < length (map dayOf cols)" "i < length (map dayOf cols)" "k \<noteq> i"
      by simp_all
    with assms(1) have "map dayOf cols ! k \<noteq> map dayOf cols ! i"
      using nth_eq_iff_index_eq by blast
    with that assms(2,3) show ?thesis by (simp add: isSameDay_def)
  qed
  then have "\<forall>k < i. \<not> (\<lambda>date. isSameDay date s) (cols ! k)" by simp
  with assms(2,3) show ?thesis
    by (intro findIndex_first [where P = "\<lambda>date. isSameDay date s"]) simp_all
qed

lemma some_throwing_total:
  "(\<forall>x \<in> set xs. f x = Inr (g x)) \<Longrightarrow> some_throwing f xs = Inr (\<exists>x \<in> set xs. g x)"
  by (induction xs) auto

lemma dayOf_bounds: "dayOf a * msPerDay \<le> a" "a < (dayOf a + 1) * msPerDay"
proof -
  have p: "(0::int) < msPerDay" by (simp add: msPerDay_def)
  have "a = dayOf a * msPerDay + a mod msPerDay" by (simp add: dayOf_def)
  moreover from p have "0 \<le> a mod msPerDay" "a mod msPerDay < msPerDay" by simp_all
  ultimately show "dayOf a * msPerDay \<le> a" "a < (dayOf a + 1) * msPerDay"
    by (simp_all add: algebra_simps)
qed

lemma dayOf_mono: "a \<le> b \<Longrightarrow> dayOf a \<le> dayOf b"
  by (simp add: dayOf_def msPerDay_def zdiv_mono1)

lemma dayOf_addDays: "dayOf (addDays a n) = dayOf a + n"
  by (simp add: dayOf_def addDays_def msPerDay_def)

lemma day_lt_mult: "d < d' \<Longrightarrow> (d + 1) * msPerDay \<le> d' * msPerDay"
  by (simp add: msPerDay_def)

lemma calculateEventPosition_invisible:
  assumes "\<forall>c \<in> set cols. \<not> isSameDay c (ev_start event)"
    and "\<forall>c \<in> set cols. \<not> isSameDay c (addDays (ev_end event) (-1))"
    and "ev_start event \<le> addDays (ev_end event) (-1)"
    and "\<forall>c \<in> set cols. \<not> (ev_start event \<le> c \<and> c \<le> addDays (ev_end event) (-1))"
  shows "calculateEventPosition event cols = Inr notVisible"
proof -
  have s: "findIndex (\<lambda>date. isSameDay date (ev_start event)) cols = -1"
    using assms(1) by (simp add: findIndex_none)
  have e: "findIndex (\<lambda>date. isSameDay date (addDays (ev_end event) (-1))) cols = -1"
    using assms(2) by (simp add: findIndex_none)
  have "some_throwing (\<lambda>date. isWithinInterval date (ev_start event) (addDays (ev_end event) (-1))) cols
          = Inr (\<exists>c \<in> set cols. ev_start event \<le> c \<and> c \<le> addDays (ev_end event) (-1))"
    using assms(3) by (intro some_throwing_total) (simp add: isWithinInterval_def)
  with assms(4) have
    "some_throwing (\<lambda>date. isWithinInterval date (ev_start event) (addDays (ev_end event) (-1))) cols
       = Inr False" by simp
  with s e show ?thesis by (simp add: calculateEventPosition_def Let_def)
qed

lemma calculateEventPosition_spanning:
  assumes "\<forall>c \<in> set cols. \<not> isSameDay c (ev_start event)"
    and "\<forall>c \<in> set cols. \<not> isSameDay c (addDays (ev_end event) (-1))"
    and "c \<in> set cols" "ev_start event \<le> c" "c \<le> addDays (ev_end event) (-1)"
  shows "calculateEventPosition event cols =
           Inr \<lparr>isVisible = True, isStart = False, isEnd = False, pos_startIndex = 0,
                pos_endIndex = int (length cols) - 1, width = int (length cols)\<rparr>"
proof -
  have s: "findIndex (\<lambda>date. isSameDay date (ev_start event)) cols = -1"
    using assms(1) by (simp add: findIndex_none)
  have e: "findIndex (\<lambda>date. isSameDay date (addDays (ev_end event) (-1))) cols = -1"
    using assms(2) by (simp add: findIndex_none)
  from assms(4,5) have le: "ev_start event \<le> addDays (ev_end event) (-1)" by simp
  have "some_throwing (\<lambda>date. isWithinInterval date (ev_start event) (addDays (ev_end event) (-1))) cols
          = Inr (\<exists>c \<in> set cols. ev_start event \<le> c \<and> c \<le> addDays (ev_end event) (-1))"
    using le by (intro some_throwing_total) (simp add: isWithinInterval_def)
  with assms(3,4,5) have
    "some_throwing (\<lambda>date. isWithinInterval date (ev_start event) (addDays (ev_end event) (-1))) cols
       = Inr True" by auto
  with s e show ?thesis by (simp add: calculateEventPosition_def Let_def)
qed

lemma calculateEventPosition_inside:
  assumes "distinct (map dayOf cols)" "i < length cols" "j < length cols"
    and "isSameDay (cols ! i) (ev_start event)"
    and "isSameDay (cols ! j) (addDays (ev_end event) (-1))"
  shows "calculateEventPosition event cols =
           Inr \<lparr>isVisible = True, isStart = True, isEnd = True, pos_startIndex = int i,
                pos_endIndex = int j, width = int j - int i + 1\<rparr>"
  using findIndex_sameDay [OF assms(1,2,4)] findIndex_sameDay [OF assms(1,3,5)]
  by (simp add: calculateEventPosition_def Let_def)

lemma dayOf_day: "dayOf (day n) = n"
  by (simp add: dayOf_def day_def msPerDay_def)

text \<open>
  Events that last at least one day, over columns of pairwise different days: when the
  start falls on the day of column \<open>i\<close> and the exclusive end minus one day on the day of
  column \<open>j\<close>, with \<open>i \<le> j\<close>, the event is visible with start index \<open>i\<close>, end index \<open>j\<close>
  and width \<open>j - i + 1\<close>. When neither day is a column and some column date lies between
  the start and the exclusive end minus one day, the result is clamped to the indices 0 and
  last and visible; that is so when the end lies on a day boundary and the day of some
  column overlaps the event's interval. When the event lasts at least one day and the day
  of no column overlaps its interval, the result is not visible, with indices \<open>-1\<close> and
  width 0.
\<close>

lemma calculateEventPosition_whole_days:
  "(distinct (map dayOf cols) \<and> i < length cols \<and> j < length cols \<and> i \<le> j \<and>
    isSameDay (cols ! i) (ev_start event) \<and> isSameDay (cols ! j) (addDays (ev_end event) (-1)) \<longrightarrow>
      calculateEventPosition event cols =
        Inr \<lparr>isVisible = True, isStart = True, isEnd = True, pos_startIndex = int i,
             pos_endIndex = int j, width = int j - int i + 1\<rparr>) \<and>
   ((\<forall>c \<in> set cols. \<not> isSameDay c (ev_start event) \<and> \<not> isSameDay c (addDays (ev_end event) (-1))) \<and>
    (\<exists>c \<in> set cols. ev_start event \<le> c \<and> c \<le> addDays (ev_end event) (-1)) \<longrightarrow>
      calculateEventPosition event cols =
        Inr \<lparr>isVisible = True, isStart = False, isEnd = False, pos_startIndex = 0,
             pos_endIndex = int (length cols) - 1, width = int (length cols)\<rparr>) \<and>
   ((\<forall>c \<in> set cols. \<not> isSameDay c (ev_start event) \<and> \<not> isSameDay c (addDays (ev_end event) (-1))) \<and>
    (\<exists>c \<in> set cols. coversDay event (dayOf c)) \<and> ev_end event mod msPerDay = 0 \<longrightarrow>
      calculateEventPosition event cols =
        Inr \<lparr>isVisible = True, isStart = False, isEnd = False, pos_startIndex = 0,
             pos_endIndex = int (length cols) - 1, width = int (length cols)\<rparr>) \<and>
   ((\<forall>c \<in> set cols. \<not> coversDay event (dayOf c)) \<and> ev_start event + msPerDay \<le> ev_end event \<longrightarrow>
      calculateEventPosition event cols = Inr notVisible)"
proof (intro conjI impI)
  assume "distinct (map dayOf cols) \<and> i < length cols \<and> j < length cols \<and> i \<le> j \<and>
    isSameDay (cols ! i) (ev_start event) \<and> isSameDay (cols ! j) (addDays (ev_end event) (-1))"
  then show "calculateEventPosition event cols =
        Inr \<lparr>isVisible = True, isStart = True, isEnd = True, pos_startIndex = int i,
             pos_endIndex = int j, width = int j - int i + 1\<rparr>"
    by (intro calculateEventPosition_inside) simp_all
next
  assume a: "(\<forall>c \<in> set cols. \<not> isSameDay c (ev_start event) \<and> \<not> isSameDay c (addDays (ev_end event) (-1))) \<and>
    (\<exists>c \<in> set cols. ev_start event \<le> c \<and> c \<le> addDays (ev_end event) (-1))"
  then obtain c where "c \<in> set cols" "ev_start event \<le> c" "c \<le> addDays (ev_end event) (-1)"
    by blast
  with a show "calculateEventPosition event cols =
        Inr \<lparr>isVisible = True, isStart = False, isEnd = False, pos_startIndex = 0,
             pos_endIndex = int (length cols) - 1, width = int (length cols)\<rparr>"
    by (intro calculateEventPosition_spanning [of cols event c]) auto
next
  assume a: "(\<forall>c \<in> set cols. \<not> isSameDay c (ev_start event) \<and> \<not> isSameDay c (addDays (ev_end event) (-1))) \<and>
    (\<exists>c \<in> set cols. coversDay event (dayOf c)) \<and> ev_end event mod msPerDay = 0"
  then obtain c where c: "c \<in> set cols" "coversDay event (dayOf c)" by blast
  from a c(1) have ns: "dayOf c \<noteq> dayOf (ev_start event)"
    and ne: "dayOf c \<noteq> dayOf (ev_end event) - 1"
    by (auto simp: isSameDay_def dayOf_addDays)
  from a have al: "ev_end event = dayOf (ev_end event) * msPerDay"
    by (simp add: dayOf_def) (metis mult.commute mult_div_mod_eq add.right_neutral)
  from c(2) ns have "dayOf (ev_start event) < dayOf c" by (simp add: coversDay_def)
  from day_lt_mult [OF this] dayOf_bounds [of "ev_start event"] dayOf_bounds [of c]
  have 1: "ev_start event \<le> c" by linarith
  from c(2) al have "dayOf c * msPerDay < dayOf (ev_end event) * msPerDay" by (simp add: coversDay_def)
  then have "dayOf c < dayOf (ev_end event)" by (simp add: msPerDay_def)
  with ne have "dayOf c < dayOf (ev_end event) - 1" by simp
  from day_lt_mult [OF this] dayOf_bounds [of c] al
  have 2: "c \<le> addDays (ev_end event) (-1)" by (simp add: addDays_def algebra_simps)
  from a c(1) 1 2 show "calculateEventPosition event cols =
        Inr \<lparr>isVisible = True, isStart = False, isEnd = False, pos_startIndex = 0,
             pos_endIndex = int (length cols) - 1, width = int (length cols)\<rparr>"
    by (intro calculateEventPosition_spanning [of cols event c]) auto
next
  assume a: "(\<forall>c \<in> set cols. \<not> coversDay event (dayOf c)) \<and> ev_start event + msPerDay \<le> ev_end event"
  then have le: "ev_start event \<le> addDays (ev_end event) (-1)" by (simp add: addDays_def)
  have lt: "addDays (ev_end event) (-1) < ev_end event" by (simp add: addDays_def msPerDay_def)
  show "calculateEventPosition event cols = Inr notVisible"
  proof (rule calculateEventPosition_invisible [OF _ _ le]; intro ballI notI)
    fix c assume c: "c \<in> set cols" "isSameDay c (ev_start event)"
    from a dayOf_bounds(1) [of "ev_start event"]
    have "dayOf (ev_start event) * msPerDay < ev_end event" by (simp add: msPerDay_def)
    with c have "coversDay event (dayOf c)" by (simp add: coversDay_def isSameDay_def)
    with a c show False by blast
  next
    fix c assume c: "c \<in> set cols" "isSameDay c (addDays (ev_end event) (-1))"
    with dayOf_mono [OF le] dayOf_bounds [of "addDays (ev_end event) (-1)"] lt
    have "coversDay event (dayOf c)" by (auto simp: coversDay_def isSameDay_def)
    with a c show False by blast
  next
    fix c assume c: "c \<in> set cols" "ev_start event \<le> c \<and> c \<le> addDays (ev_end event) (-1)"
    with dayOf_mono [of "ev_start event" c] dayOf_bounds [of c] lt
    have "coversDay event (dayOf c)" by (auto simp: coversDay_def)
    with a c show False by blast
  qed
qed

text \<open>Over two weeks of daily columns: \<open>[day3, day5)\<close> sits at index 3 with width 2, an event
  from day -5 to day 30 is clamped to the 14 columns, an event on the days 20 and 21 is not
  visible.\<close>

lemma calculateEventPosition_whole_days_example:
  "calculateEventPosition eventR1 twoWeeks =
     Inr \<lparr>isVisible = True, isStart = True, isEnd = True, pos_startIndex = 3,
          pos_endIndex = 4, width = 2\<rparr> \<and>
   calculateEventPosition eventLong twoWeeks =
     Inr \<lparr>isVisible = True, isStart = False, isEnd = False, pos_startIndex = 0,
          pos_endIndex = 13, width = 14\<rparr> \<and>
   calculateEventPosition eventFar twoWeeks = Inr notVisible"
proof -
  have a1: "addDays (day 5) (-1) = day 4" "addDays (day 30) (-1) = day 29"
    and m: "day 30 mod msPerDay = 0" "day 20 + msPerDay \<le> day 22"
    and lt: "0 * msPerDay < day 30"
    by (simp_all add: addDays_def day_def msPerDay_def)
  have inside: "calculateEventPosition eventR1 twoWeeks =
     Inr \<lparr>isVisible = True, isStart = True, isEnd = True, pos_startIndex = 3,
          pos_endIndex = 4, width = 2\<rparr>"
    using calculateEventPosition_whole_days [where cols = twoWeeks and event = eventR1 and i = 3 and j = 4]
    by (simp add: twoWeeks_def eventR1_def isSameDay_def dayOf_day a1)
  have spanning: "calculateEventPosition eventLong twoWeeks =
     Inr \<lparr>isVisible = True, isStart = False, isEnd = False, pos_startIndex = 0,
          pos_endIndex = 13, width = 14\<rparr>"
    using calculateEventPosition_whole_days [where cols = twoWeeks and event = eventLong and i = 0 and j = 0] m lt
    by (simp add: twoWeeks_def eventLong_def isSameDay_def coversDay_def dayOf_day a1)
  have outside: "calculateEventPosition eventFar twoWeeks = Inr notVisible"
    using calculateEventPosition_whole_days [where cols = twoWeeks and event = eventFar and i = 0 and j = 0] m
    by (simp add: twoWeeks_def eventFar_def coversDay_def dayOf_day)
  from inside spanning outside show ?thesis by simp
qed

text \<open>
  C5. The claim fails on the code for an event shorter than a day, the shape of the sample
  event of the README (from 10:00 to 12:00 on one day), because the end column is looked up
  one day before the end. Over the daily columns of two weeks the meeting on day 5 lies
  fully inside the columns and has one bucket, yet it gets the end index 4 and the width 0.
  With day 4 as the only column it overlaps no column and is reported visible over that
  column. With the columns of the days 5, 6 and 7 it is spread over all three. With day 9 as
  the only column the function returns no position: \<open>isWithinInterval\<close> is called with an
  interval that ends before it starts, and throws. An event that ends at 05:00 on day 0, the
  only column, overlaps that day and is reported not visible.
\<close>

theorem event_position_sub_day_event:
  "calculateEventPosition eventMeeting twoWeeks =
     Inr \<lparr>isVisible = True, isStart = True, isEnd = True, pos_startIndex = 5,
          pos_endIndex = 4, width = 0\<rparr> \<and>
   coversDay eventMeeting (dayOf (twoWeeks ! 5)) \<and>
   calculateEventPosition eventMeeting [day 4] =
     Inr \<lparr>isVisible = True, isStart = False, isEnd = True, pos_startIndex = 0,
          pos_endIndex = 0, width = 1\<rparr> \<and>
   \<not> coversDay eventMeeting (dayOf (day 4)) \<and>
   calculateEventPosition eventMeeting [day 5, day 6, day 7] =
     Inr \<lparr>isVisible = True, isStart = True, isEnd = False, pos_startIndex = 0,
          pos_endIndex = 2, width = 3\<rparr> \<and>
   calculateEventPosition eventMeeting [day 9] = Inl RangeError \<and>
   calculateEventPosition eventUntilFive [day 0] = Inr notVisible \<and>
   coversDay eventUntilFive (dayOf (day 0))"
  by (simp add: calculateEventPosition_def Let_def eventMeeting_def eventUntilFive_def twoWeeks_def
      day_def msPerDay_def isSameDay_def dayOf_def addDays_def coversDay_def isWithinInterval_def)

text \<open>The meeting is drawn with no width: its end index lies before its start index.\<close>

theorem event_position_sub_day_event_witness:
  "(case calculateEventPosition eventMeeting twoWeeks of
      Inl err \<Rightarrow> False
    | Inr p \<Rightarrow> isVisible p \<and> width p = 0 \<and> pos_endIndex p < pos_startIndex p)"
  using event_position_sub_day_event by simp

section \<open>Occupied dates\<close>

lemma steppedDays_step:
  assumes "s < e"
  shows "steppedDays s e = insert (dayOf s) (steppedDays (addDays s 1) e)"
proof (intro set_eqI iffI)
  fix d assume "d \<in> steppedDays s e"
  then obtain k where k: "0 \<le> k" "d = dayOf s + k" "s + k * msPerDay < e"
    by (auto simp: steppedDays_def)
  show "d \<in> insert (dayOf s) (steppedDays (addDays s 1) e)"
  proof (cases "k = 0")
    case True
    with k show ?thesis by simp
  next
    case False
    with k have "0 \<le> k - 1" "d = dayOf (addDays s 1) + (k - 1)"
      by (simp_all add: dayOf_addDays)
    moreover from k have "addDays s 1 + (k - 1) * msPerDay < e"
      by (simp add: addDays_def algebra_simps)
    ultimately have "0 \<le> k - 1" "d = dayOf (addDays s 1) + (k - 1)"
      "addDays s 1 + (k - 1) * msPerDay < e" by simp_all
    then show ?thesis unfolding steppedDays_def by blast
  qed
next
  fix d assume "d \<in> insert (dayOf s) (steppedDays (addDays s 1) e)"
  then consider "d = dayOf s" | "d \<in> steppedDays (addDays s 1) e" by blast
  then show "d \<in> steppedDays s e"
  proof cases
    case 1
    with assms show ?thesis by (auto simp: steppedDays_def intro: exI [of _ 0])
  next
    case 2
    then obtain k where k: "0 \<le> k" "d = dayOf (addDays s 1) + k" "addDays s 1 + k * msPerDay < e"
      by (auto simp: steppedDays_def)
    then have "0 \<le> k + 1" "d = dayOf s + (k + 1)"
      by (simp_all add: dayOf_addDays)
    moreover from k have "s + (k + 1) * msPerDay < e"
      by (simp add: addDays_def algebra_simps)
    ultimately have "0 \<le> k + 1" "d = dayOf s + (k + 1)" "s + (k + 1) * msPerDay < e"
      by simp_all
    then show ?thesis unfolding steppedDays_def by blast
  qed
qed

lemma steppedDays_empty: "\<not> s < e \<Longrightarrow> steppedDays s e = {}"
proof -
  assume a: "\<not> s < e"
  have "\<not> s + k * msPerDay < e" if "0 \<le> k" for k
  proof -
    from that have "0 \<le> k * msPerDay" by (simp add: msPerDay_def)
    with a show ?thesis by linarith
  qed
  then show ?thesis by (auto simp: steppedDays_def)
qed

lemma occupiedLoop_eq: "occupiedLoop s e acc = acc \<union> steppedDays s e"
proof (induction s e acc rule: occupiedLoop.induct)
  case (1 currentDate eventEnd occupied)
  show ?case
  proof (cases "currentDate < eventEnd")
    case True
    then have "occupiedLoop currentDate eventEnd occupied =
        occupiedLoop (addDays currentDate 1) eventEnd (insert (dateKey currentDate) occupied)"
      by (subst occupiedLoop.simps) (simp add: isBefore_def)
    also have "\<dots> = insert (dateKey currentDate) occupied \<union> steppedDays (addDays currentDate 1) eventEnd"
      using True by (intro "1.IH") (simp add: isBefore_def)
    finally show ?thesis using steppedDays_step [OF True] by (simp add: dateKey_def)
  next
    case False
    then have "occupiedLoop currentDate eventEnd occupied = occupied"
      by (subst occupiedLoop.simps) (simp add: isBefore_def)
    with steppedDays_empty [OF False] show ?thesis by simp
  qed
qed

lemma occupied_foldl:
  "foldl (\<lambda>occupied event. occupiedLoop (ev_start event) (ev_end event) occupied) acc evs =
     acc \<union> (\<Union>ev \<in> set evs. steppedDays (ev_start ev) (ev_end ev))"
  by (induction evs arbitrary: acc) (auto simp: occupiedLoop_eq)

lemma occupiedDatesOf_eq:
  "occupiedDatesOf evs = (\<Union>ev \<in> set evs. steppedDays (ev_start ev) (ev_end ev))"
  by (simp add: occupiedDatesOf_def occupied_foldl)

lemma resourceEventMap_lookup:
  "map_get (resourceEventMap rs events) rid =
     (if rid \<noteq> [] \<and> rid \<in> res_id ` set rs
      then Some \<lparr>rd_events = getEventsForResource events rid,
                 occupiedDates = occupiedDatesOf (getEventsForResource events rid)\<rparr>
      else None)"
proof (induction rs rule: rev_induct)
  case Nil
  show ?case by (simp add: resourceEventMap_def map_get_def)
next
  case (snoc r rs)
  have "resourceEventMap (rs @ [r]) events =
          (if \<not> truthy (res_id r) then resourceEventMap rs events
           else map_set (res_id r)
                  \<lparr>rd_events = getEventsForResource events (res_id r),
                   occupiedDates = occupiedDatesOf (getEventsForResource events (res_id r))\<rparr>
                  (resourceEventMap rs events))"
    by (simp add: resourceEventMap_def Let_def)
  with snoc show ?case by (auto simp: map_get_map_set truthy_def)
qed

text \<open>
  C8 (as amended). For every resource that has an entry in \<open>resourceEventMap\<close> (every resource with a
  non-empty id has one), the entry holds the events of that resource in input order, and its
  occupied-date set is exactly the set of day keys \<open>d\<close> that the stepping of some event of
  the resource reaches: \<open>d\<close> is the day of the event's start plus \<open>k\<close> days, for a \<open>k \<ge> 0\<close>
  with start plus \<open>k\<close> days before the end. The map is a function of the resource and
  event collections alone: nothing of an earlier map enters it.
\<close>

theorem occupied_dates_by_day_stepping:
  "(map_get (resourceEventMap rs events) rid = Some entry \<longrightarrow>
      rd_events entry = filter (\<lambda>ev. resourceId ev = rid) events \<and>
      occupiedDates entry =
        {d. \<exists>ev \<in> set events. resourceId ev = rid \<and>
              (\<exists>k \<ge> 0. d = dayOf (ev_start ev) + k \<and> ev_start ev + k * msPerDay < ev_end ev)}) \<and>
   (r \<in> set rs \<and> res_id r \<noteq> [] \<longrightarrow>
      (\<exists>entry. map_get (resourceEventMap rs events) (res_id r) = Some entry))"
proof (intro conjI impI)
  assume a: "map_get (resourceEventMap rs events) rid = Some entry"
  then have rid: "rid \<noteq> []" and entry: "entry = \<lparr>rd_events = getEventsForResource events rid,
                 occupiedDates = occupiedDatesOf (getEventsForResource events rid)\<rparr>"
    by (auto simp: resourceEventMap_lookup split: if_splits)
  from rid have g: "getEventsForResource events rid = filter (\<lambda>ev. resourceId ev = rid) events"
    by (simp add: getEventsForResource_filter truthy_def)
  show "rd_events entry = filter (\<lambda>ev. resourceId ev = rid) events"
    by (simp add: entry g)
  show "occupiedDates entry =
        {d. \<exists>ev \<in> set events. resourceId ev = rid \<and>
              (\<exists>k \<ge> 0. d = dayOf (ev_start ev) + k \<and> ev_start ev + k * msPerDay < ev_end ev)}"
    by (auto simp: entry g occupiedDatesOf_eq steppedDays_def)
next
  assume "r \<in> set rs \<and> res_id r \<noteq> []"
  then show "\<exists>entry. map_get (resourceEventMap rs events) (res_id r) = Some entry"
    by (simp add: resourceEventMap_lookup)
qed

text \<open>\<open>R1\<close> holds \<open>[day1, day3)\<close> and \<open>[day3, day5)\<close>: its occupied days are 1, 2, 3 and 4;
  \<open>R2\<close> has an entry with no event and no occupied day.\<close>

theorem occupied_dates_by_day_stepping_witness:
  "map_get (resourceEventMap [roomR1, roomR2] [eventE, eventR1]) ''R1'' =
     Some \<lparr>rd_events = [eventE, eventR1], occupiedDates = {1, 2, 3, 4}\<rparr> \<and>
   {1, 2, 3, 4} =
     {d. \<exists>ev \<in> set [eventE, eventR1]. resourceId ev = ''R1'' \<and>
           (\<exists>k \<ge> 0. d = dayOf (ev_start ev) + k \<and> ev_start ev + k * msPerDay < ev_end ev)} \<and>
   map_get (resourceEventMap [roomR1, roomR2] [eventE, eventR1]) ''R2'' =
     Some \<lparr>rd_events = [], occupiedDates = {}\<rparr>"
proof -
  have g: "getEventsForResource [eventE, eventR1] ''R1'' = [eventE, eventR1]"
    "getEventsForResource [eventE, eventR1] ''R2'' = []"
    by (simp_all add: getEventsForResource_filter truthy_def eventE_def eventR1_def)
  have o: "occupiedDatesOf [eventE, eventR1] = {1, 2, 3, 4}"
    by (simp add: occupiedDatesOf_def occupiedLoop.simps eventE_def eventR1_def day_def
        msPerDay_def isBefore_def addDays_def dateKey_def dayOf_def insert_commute)
  have 1: "map_get (resourceEventMap [roomR1, roomR2] [eventE, eventR1]) ''R1'' =
     Some \<lparr>rd_events = [eventE, eventR1], occupiedDates = {1, 2, 3, 4}\<rparr>"
    by (simp add: resourceEventMap_def Let_def map_get_def roomR1_def roomR2_def truthy_def g o)
  have 2: "map_get (resourceEventMap [roomR1, roomR2] [eventE, eventR1]) ''R2'' =
     Some \<lparr>rd_events = [], occupiedDates = {}\<rparr>"
    by (simp add: resourceEventMap_def Let_def map_get_def roomR1_def roomR2_def truthy_def g
        occupiedDatesOf_def)
  from occupied_dates_by_day_stepping
         [where rs = "[roomR1, roomR2]" and events = "[eventE, eventR1]" and rid = "''R1''"
            and entry = "\<lparr>rd_events = [eventE, eventR1], occupiedDates = {1, 2, 3, 4}\<rparr>"
            and r = roomR1] 1 2
  show ?thesis by simp
qed

text \<open>The claim as stated, "for every resource", fails for a resource whose id is the empty
  string: the map has no entry for it, the row renderer falls back to the empty set, and
  the days 1 and 2 that the event of this resource covers are not in it.\<close>

theorem occupied_dates_empty_id_counterexample:
  "roomNoId \<in> set [roomNoId] \<and> resourceId eventOnNoId = res_id roomNoId \<and>
   map_get (resourceEventMap [roomNoId] [eventOnNoId]) (res_id roomNoId) = None \<and>
   occupiedDates (resourceDataOf (resourceEventMap [roomNoId] [eventOnNoId]) (res_id roomNoId)) = {} \<and>
   occupiedLoop (ev_start eventOnNoId) (ev_end eventOnNoId) {} = {1, 2}"
  by (simp add: resourceEventMap_def resourceDataOf_def map_get_def roomNoId_def eventOnNoId_def
      truthy_def occupiedLoop.simps isBefore_def addDays_def dateKey_def dayOf_def day_def
      msPerDay_def insert_commute)

end
